theory Spec2Isabelle
  imports Main "HOL-Library.Word" "HOL-Library.Char_ord" "HOL-Library.List_Lexorder"
begin

section \<open>Federation credential storage of the Dolt store\<close>

text \<open>
  A shallow embedding of the credential code of package \<^verbatim>\<open>dolt\<close>
  (\<^verbatim>\<open>validatePeerName\<close>, \<^verbatim>\<open>initCredentialKey\<close>, \<^verbatim>\<open>migrateCredentialKeys\<close>,
  \<^verbatim>\<open>encryptWithKey\<close>, \<^verbatim>\<open>decryptWithKey\<close>, the peer CRUD operations,
  \<^verbatim>\<open>remoteCredentials.applyToCmd\<close> and \<^verbatim>\<open>withEnvCredentials\<close>).

  Go values are modelled as follows. A \<^verbatim>\<open>string\<close> is a \<^typ>\<open>string\<close> (a list of
  8-bit characters, so \<^const>\<open>length\<close> is Go's \<^verbatim>\<open>len\<close>). A \<^verbatim>\<open>[]byte\<close> that is
  never nil is a list of 8-bit words; one that may be nil is an option of such a list.
  A Go \<^verbatim>\<open>error\<close> result is the left summand of a sum, or an \<^typ>\<open>'a option\<close>
  (\<^const>\<open>None\<close> for nil) where the function returns only an error.
\<close>

subsection \<open>Bytes, strings and errors\<close>

type_synonym byte = "8 word"

text \<open>The conversions \<^verbatim>\<open>[]byte(s)\<close> and \<^verbatim>\<open>string(b)\<close> copy the bytes unchanged.\<close>

definition bytes_of_string :: "string \<Rightarrow> byte list" where
  "bytes_of_string s = map (\<lambda>c. of_char c) s"

definition string_of_bytes :: "byte list \<Rightarrow> string" where
  "string_of_bytes b = map (\<lambda>w. char_of (unat w)) b"

text \<open>
  Error values. \<open>Err m\<close> is \<^verbatim>\<open>fmt.Errorf(m)\<close> with a constant message,
  \<open>Wrapped m e\<close> is \<^verbatim>\<open>fmt.Errorf(m + ": %w", e)\<close> and \<open>Annotated e m\<close> is
  \<^verbatim>\<open>fmt.Errorf("%w: " + m, e)\<close>; \<open>KeySizeError\<close>,
  \<open>ErrUnexpectedEOF\<close>, \<open>ErrOpen\<close>, \<open>ErrNoRows\<close> and \<open>ErrNotFound\<close> are the
  sentinel errors of \<^verbatim>\<open>crypto/aes\<close>, \<^verbatim>\<open>io\<close>, \<^verbatim>\<open>crypto/cipher\<close>,
  \<^verbatim>\<open>database/sql\<close> and package \<^verbatim>\<open>storage\<close>; \<open>StoreError\<close> is a failure
  reported by the database; \<open>NilPointerPanic\<close> is the run-time panic of a method
  call through a nil \<^verbatim>\<open>*sql.DB\<close>.
\<close>

datatype error =
    Err string
  | Wrapped string error
  | Annotated error string
  | KeySizeError nat
  | ErrUnexpectedEOF
  | ErrOpen
  | ErrNoRows
  | ErrNotFound
  | StoreError string
  | NilPointerPanic

subsection \<open>The cryptographic primitives of the standard library\<close>

text \<open>
  SHA-256 and AES-GCM live in Go's standard library, not in this repository; they are
  parameters of the model. \<open>sha256_Sum\<close> is the digest of a byte string;
  \<open>aead_seal key nonce plaintext\<close> is the sealed box (ciphertext followed by the
  tag) and \<open>aead_open key nonce box\<close> the opened plaintext, or \<^const>\<open>None\<close> when
  authentication fails.
\<close>

record crypto =
  sha256_Sum :: "byte list \<Rightarrow> byte list"
  aead_seal :: "byte list \<Rightarrow> byte list \<Rightarrow> byte list \<Rightarrow> byte list"
  aead_open :: "byte list \<Rightarrow> byte list \<Rightarrow> byte list \<Rightarrow> byte list option"

text \<open>\<^verbatim>\<open>aes.NewCipher\<close> accepts keys of 16, 24 or 32 bytes only.\<close>

datatype block = Block (block_key: "byte list")

definition aes_NewCipher :: "byte list \<Rightarrow> error + block" where
  "aes_NewCipher key =
     (if length key = 16 \<or> length key = 24 \<or> length key = 32 then Inr (Block key)
      else Inl (KeySizeError (length key)))"

text \<open>
  \<^verbatim>\<open>cipher.NewGCM\<close> fails only for a block size other than 16, which an AES block
  never has; the value it returns is the block again. \<^verbatim>\<open>gcm.NonceSize()\<close> is the
  standard nonce size of GCM.
\<close>

definition NonceSize :: nat where
  "NonceSize = 12"

definition cipher_NewGCM :: "block \<Rightarrow> error + block" where
  "cipher_NewGCM b = Inr b"

text \<open>\<^verbatim>\<open>gcm.Seal(dst, nonce, plaintext, nil)\<close> appends the sealed box to \<open>dst\<close>.\<close>

definition gcm_Seal :: "crypto \<Rightarrow> block \<Rightarrow> byte list \<Rightarrow> byte list \<Rightarrow> byte list \<Rightarrow> byte list" where
  "gcm_Seal C g dst nonce plaintext = dst @ aead_seal C (block_key g) nonce plaintext"

definition gcm_Open :: "crypto \<Rightarrow> block \<Rightarrow> byte list \<Rightarrow> byte list \<Rightarrow> error + byte list" where
  "gcm_Open C g nonce ciphertext =
     (case aead_open C (block_key g) nonce ciphertext of
        None \<Rightarrow> Inl ErrOpen
      | Some p \<Rightarrow> Inr p)"

text \<open>
  \<^verbatim>\<open>io.ReadFull(rand.Reader, buf)\<close>: the random source is the list of bytes it will
  deliver; reading \<open>n\<close> bytes returns them with the rest of the source, or fails when
  the source ends early.
\<close>

definition io_ReadFull :: "byte list \<Rightarrow> nat \<Rightarrow> (error + byte list) \<times> byte list" where
  "io_ReadFull rnd n =
     (if n \<le> length rnd then (Inr (take n rnd), drop n rnd)
      else (Inl ErrUnexpectedEOF, []))"

subsection \<open>Cipher: \<^verbatim>\<open>encryptWithKey\<close> and \<^verbatim>\<open>decryptWithKey\<close>\<close>

definition encryptWithKey ::
  "crypto \<Rightarrow> string \<Rightarrow> byte list \<Rightarrow> byte list \<Rightarrow> (error + byte list) \<times> byte list" where
  "encryptWithKey C plaintext key rnd =
     (case aes_NewCipher key of
        Inl err \<Rightarrow> (Inl err, rnd)
      | Inr blk \<Rightarrow>
         (case cipher_NewGCM blk of
            Inl err \<Rightarrow> (Inl err, rnd)
          | Inr gcm \<Rightarrow>
             (case io_ReadFull rnd NonceSize of
                (Inl err, rnd') \<Rightarrow> (Inl err, rnd')
              | (Inr nonce, rnd') \<Rightarrow>
                  (Inr (gcm_Seal C gcm nonce nonce (bytes_of_string plaintext)), rnd'))))"

definition decryptWithKey :: "crypto \<Rightarrow> byte list \<Rightarrow> byte list \<Rightarrow> error + string" where
  "decryptWithKey C encrypted key =
     (case aes_NewCipher key of
        Inl err \<Rightarrow> Inl err
      | Inr blk \<Rightarrow>
         (case cipher_NewGCM blk of
            Inl err \<Rightarrow> Inl err
          | Inr gcm \<Rightarrow>
             (let nonceSize = NonceSize in
              if length encrypted < nonceSize then Inl (Err ''ciphertext too short'')
              else
                (let nonce = take nonceSize encrypted;
                     ciphertext = drop nonceSize encrypted
                 in case gcm_Open C gcm nonce ciphertext of
                      Inl err \<Rightarrow> Inl err
                    | Inr plaintext \<Rightarrow> Inr (string_of_bytes plaintext)))))"

subsection \<open>Peer names: \<^verbatim>\<open>validatePeerName\<close>\<close>

text \<open>
  Regular expressions as far as the code uses them: character classes (lists of
  inclusive ranges), alternation, concatenation and iteration. Matching is by
  derivatives. The pattern of the code is anchored by \<^verbatim>\<open>^\<close> and \<^verbatim>\<open>$\<close> (without
  the multi-line flag \<^verbatim>\<open>$\<close> is the end of the text), so \<^verbatim>\<open>MatchString\<close> holds when
  the whole string matches what stands between the anchors.
\<close>

datatype regex =
    Zero
  | One
  | Class "(char \<times> char) list"
  | Alt regex regex
  | Seq regex regex
  | Star regex

fun in_class :: "char \<Rightarrow> (char \<times> char) list \<Rightarrow> bool" where
  "in_class c [] = False"
| "in_class c ((lo, hi) # rs) = ((lo \<le> c \<and> c \<le> hi) \<or> in_class c rs)"

fun nullable :: "regex \<Rightarrow> bool" where
  "nullable Zero = False"
| "nullable One = True"
| "nullable (Class rs) = False"
| "nullable (Alt r s) = (nullable r \<or> nullable s)"
| "nullable (Seq r s) = (nullable r \<and> nullable s)"
| "nullable (Star r) = True"

fun deriv :: "char \<Rightarrow> regex \<Rightarrow> regex" where
  "deriv c Zero = Zero"
| "deriv c One = Zero"
| "deriv c (Class rs) = (if in_class c rs then One else Zero)"
| "deriv c (Alt r s) = Alt (deriv c r) (deriv c s)"
| "deriv c (Seq r s) =
     (if nullable r then Alt (Seq (deriv c r) s) (deriv c s) else Seq (deriv c r) s)"
| "deriv c (Star r) = Seq (deriv c r) (Star r)"

definition MatchString :: "regex \<Rightarrow> string \<Rightarrow> bool" where
  "MatchString r s = nullable (fold deriv s r)"

text \<open>The pattern \<^verbatim>\<open>^[a-zA-Z][a-zA-Z0-9_-]*$\<close>.\<close>

definition validPeerNameRegex :: regex where
  "validPeerNameRegex =
     Seq (Class [(CHR ''a'', CHR ''z''), (CHR ''A'', CHR ''Z'')])
         (Star (Class [(CHR ''a'', CHR ''z''), (CHR ''A'', CHR ''Z''), (CHR ''0'', CHR ''9''),
                       (CHR ''_'', CHR ''_''), (CHR ''-'', CHR ''-'')]))"

definition validatePeerName :: "string \<Rightarrow> error option" where
  "validatePeerName name =
     (if name = [] then Some (Err ''peer name cannot be empty'')
      else if length name > 64 then Some (Err ''peer name too long (max 64 characters)'')
      else if \<not> MatchString validPeerNameRegex name then
        Some (Err ''peer name must start with a letter and contain only alphanumeric characters, hyphens, and underscores'')
      else None)"

subsection \<open>The store, its database and its files\<close>

text \<open>
  A row of table \<^verbatim>\<open>federation_peers\<close>; nullable columns are options. The table is
  the list of its rows, or \<^const>\<open>None\<close> when it does not exist. Times are numbers.
\<close>

record peer_row =
  row_name :: string
  row_remote_url :: string
  row_username :: "string option"
  row_password_encrypted :: "byte list option"
  row_sovereignty :: string
  row_last_sync :: "nat option"
  row_created_at :: nat
  row_updated_at :: nat

record database =
  federation_peers :: "peer_row list option"

record DoltStore =
  dbPath :: string
  credentialKey :: "byte list option"
  db :: "database option"

record FederationPeer =
  Name :: string
  RemoteURL :: string
  Username :: string
  Password :: string
  Sovereignty :: string
  LastSync :: "nat option"
  CreatedAt :: nat
  UpdatedAt :: nat

text \<open>\<^verbatim>\<open>len\<close> of a byte slice that may be nil, and the slice as a list of bytes.\<close>

definition len :: "byte list option \<Rightarrow> nat" where
  "len b = (case b of None \<Rightarrow> 0 | Some bs \<Rightarrow> length bs)"

definition bytes :: "byte list option \<Rightarrow> byte list" where
  "bytes b = (case b of None \<Rightarrow> [] | Some bs \<Rightarrow> bs)"

text \<open>
  The SQL statements of the code, on the table. Every statement fails when the table
  does not exist; the other ways a database can fail (a lost connection, an error
  while scanning or iterating rows) have no counterpart in the model.
\<close>

definition no_table :: error where
  "no_table = StoreError ''table not found: federation_peers''"

text \<open>
  \<^verbatim>\<open>SELECT name, password_encrypted FROM federation_peers WHERE password_encrypted
  IS NOT NULL AND LENGTH(password_encrypted) > 0\<close>
\<close>

definition select_encrypted :: "database \<Rightarrow> error + (string \<times> byte list) list" where
  "select_encrypted d =
     (case federation_peers d of
        None \<Rightarrow> Inl no_table
      | Some rows \<Rightarrow>
          Inr (map (\<lambda>r. (row_name r, bytes (row_password_encrypted r)))
                 (filter (\<lambda>r. row_password_encrypted r \<noteq> None \<and> len (row_password_encrypted r) > 0)
                    rows)))"

text \<open>\<^verbatim>\<open>UPDATE federation_peers SET password_encrypted = ? WHERE name = ?\<close>\<close>

definition update_password :: "database \<Rightarrow> byte list \<Rightarrow> string \<Rightarrow> error + database" where
  "update_password d encrypted name =
     (case federation_peers d of
        None \<Rightarrow> Inl no_table
      | Some rows \<Rightarrow>
          Inr (d\<lparr>federation_peers :=
                 Some (map (\<lambda>r. if row_name r = name
                                 then r\<lparr>row_password_encrypted := Some encrypted\<rparr> else r) rows)\<rparr>))"

text \<open>
  \<^verbatim>\<open>INSERT INTO federation_peers (name, remote_url, username, password_encrypted,
  sovereignty) VALUES (?, ?, ?, ?, ?) ON DUPLICATE KEY UPDATE ...\<close>, with \<open>name\<close> the
  primary key. The table's schema is not part of the sources at hand; a new row gets
  no \<open>last_sync\<close> and the current time in \<open>created_at\<close> and \<open>updated_at\<close>.
\<close>

definition upsert_peer ::
  "database \<Rightarrow> string \<Rightarrow> string \<Rightarrow> string \<Rightarrow> byte list option \<Rightarrow> string \<Rightarrow> nat \<Rightarrow> error + database" where
  "upsert_peer d name url username encryptedPwd sovereignty now =
     (case federation_peers d of
        None \<Rightarrow> Inl no_table
      | Some rows \<Rightarrow>
          Inr (d\<lparr>federation_peers := Some
            (if list_ex (\<lambda>r. row_name r = name) rows
             then map (\<lambda>r. if row_name r = name
                            then r\<lparr>row_remote_url := url, row_username := Some username,
                                   row_password_encrypted := encryptedPwd,
                                   row_sovereignty := sovereignty, row_updated_at := now\<rparr>
                            else r) rows
             else rows @ [\<lparr>row_name = name, row_remote_url = url, row_username = Some username,
                            row_password_encrypted = encryptedPwd, row_sovereignty = sovereignty,
                            row_last_sync = None, row_created_at = now, row_updated_at = now\<rparr>])\<rparr>))"

text \<open>\<^verbatim>\<open>SELECT ... FROM federation_peers WHERE name = ?\<close>, read by \<^verbatim>\<open>QueryRowContext\<close>.\<close>

definition select_peer :: "database \<Rightarrow> string \<Rightarrow> error + peer_row" where
  "select_peer d name =
     (case federation_peers d of
        None \<Rightarrow> Inl no_table
      | Some rows \<Rightarrow>
          (case find (\<lambda>r. row_name r = name) rows of
             None \<Rightarrow> Inl ErrNoRows
           | Some r \<Rightarrow> Inr r))"

text \<open>\<^verbatim>\<open>SELECT ... FROM federation_peers ORDER BY name\<close>\<close>

definition select_peers :: "database \<Rightarrow> error + peer_row list" where
  "select_peers d =
     (case federation_peers d of
        None \<Rightarrow> Inl no_table
      | Some rows \<Rightarrow> Inr (sort_key row_name rows))"

text \<open>
  The files the key lives in: a map from paths to contents, and whether the file
  system accepts writes. \<^verbatim>\<open>filepath.Join\<close> is modelled for a directory and a file
  name, without its cleaning of the path.
\<close>

record filesystem =
  fs_files :: "string \<rightharpoonup> byte list"
  fs_writable :: bool

definition os_ReadFile :: "filesystem \<Rightarrow> string \<Rightarrow> error + byte list" where
  "os_ReadFile fs path =
     (case fs_files fs path of
        None \<Rightarrow> Inl (Err ''no such file or directory'')
      | Some b \<Rightarrow> Inr b)"

definition os_MkdirAll :: "filesystem \<Rightarrow> string \<Rightarrow> error option \<times> filesystem" where
  "os_MkdirAll fs path =
     (if fs_writable fs then (None, fs) else (Some (Err ''permission denied''), fs))"

definition os_WriteFile :: "filesystem \<Rightarrow> string \<Rightarrow> byte list \<Rightarrow> error option \<times> filesystem" where
  "os_WriteFile fs path data =
     (if fs_writable fs then (None, fs\<lparr>fs_files := (fs_files fs)(path \<mapsto> data)\<rparr>)
      else (Some (Err ''permission denied''), fs))"

definition filepath_Join :: "string \<Rightarrow> string \<Rightarrow> string" where
  "filepath_Join dir file = dir @ ''/'' @ file"

definition credentialKeyFile :: string where
  "credentialKeyFile = ''.beads-credential-key''"

subsection \<open>KeyManager: \<^verbatim>\<open>legacyEncryptionKey\<close>, \<^verbatim>\<open>migrateCredentialKeys\<close>, \<^verbatim>\<open>initCredentialKey\<close>\<close>

definition legacyEncryptionKey :: "crypto \<Rightarrow> DoltStore \<Rightarrow> byte list" where
  "legacyEncryptionKey C s =
     sha256_Sum C (bytes_of_string (dbPath s @ ''beads-federation-key-v1''))"

text \<open>The first loop of \<^verbatim>\<open>migrateCredentialKeys\<close>: the rows that decrypt under the old key.\<close>

fun toMigrate :: "crypto \<Rightarrow> byte list \<Rightarrow> (string \<times> byte list) list \<Rightarrow> (string \<times> string) list" where
  "toMigrate C oldKey [] = []"
| "toMigrate C oldKey ((name, encrypted) # rows) =
     (case decryptWithKey C encrypted oldKey of
        Inl err \<Rightarrow> toMigrate C oldKey rows
      | Inr plaintext \<Rightarrow> (name, plaintext) # toMigrate C oldKey rows)"

text \<open>The second loop: each entry is encrypted under the new key and written back.\<close>

fun reencrypt ::
  "crypto \<Rightarrow> byte list \<Rightarrow> (string \<times> string) list \<Rightarrow> database \<Rightarrow> byte list
     \<Rightarrow> error option \<times> database \<times> byte list" where
  "reencrypt C newKey [] d rnd = (None, d, rnd)"
| "reencrypt C newKey ((name, plaintext) # entries) d rnd =
     (case encryptWithKey C plaintext newKey rnd of
        (Inl err, rnd') \<Rightarrow>
          (Some (Wrapped (''failed to re-encrypt password for peer '' @ name) err), d, rnd')
      | (Inr encrypted, rnd') \<Rightarrow>
          (case update_password d encrypted name of
             Inl err \<Rightarrow>
               (Some (Wrapped (''failed to update encrypted password for peer '' @ name) err), d, rnd')
           | Inr d' \<Rightarrow> reencrypt C newKey entries d' rnd'))"

definition migrateCredentialKeys ::
  "crypto \<Rightarrow> DoltStore \<Rightarrow> byte list \<Rightarrow> byte list \<Rightarrow> error option \<times> DoltStore \<times> byte list" where
  "migrateCredentialKeys C s newKey rnd =
     (case db s of
        None \<Rightarrow> (None, s, rnd)
      | Some d \<Rightarrow>
          (let oldKey = legacyEncryptionKey C s in
           case select_encrypted d of
             Inl err \<Rightarrow> (None, s, rnd)
           | Inr rows \<Rightarrow>
               (case reencrypt C newKey (toMigrate C oldKey rows) d rnd of
                  (err, d', rnd') \<Rightarrow> (err, s\<lparr>db := Some d'\<rparr>, rnd'))))"

definition initCredentialKey ::
  "crypto \<Rightarrow> DoltStore \<Rightarrow> filesystem \<Rightarrow> byte list
     \<Rightarrow> error option \<times> DoltStore \<times> filesystem \<times> byte list" where
  "initCredentialKey C s fs rnd =
     (if dbPath s = [] then (None, s, fs, rnd)
      else
        (let keyPath = filepath_Join (dbPath s) credentialKeyFile;
             loaded = os_ReadFile fs keyPath
         in if \<not> isl loaded \<and> length (projr loaded) = 32
            then (None, s\<lparr>credentialKey := Some (projr loaded)\<rparr>, fs, rnd)
            else
              (case io_ReadFull rnd 32 of
                 (Inl err, rnd1) \<Rightarrow>
                   (Some (Wrapped ''failed to generate credential encryption key'' err), s, fs, rnd1)
               | (Inr key, rnd1) \<Rightarrow>
                   (case migrateCredentialKeys C s key rnd1 of
                      (Some err, s2, rnd2) \<Rightarrow>
                        (Some (Wrapped ''failed to migrate credential keys'' err), s2, fs, rnd2)
                    | (None, s2, rnd2) \<Rightarrow>
                        (case os_MkdirAll fs (dbPath s) of
                           (Some err, fs1) \<Rightarrow>
                             (Some (Wrapped ''failed to create directory for credential key'' err),
                              s2, fs1, rnd2)
                         | (None, fs1) \<Rightarrow>
                             (case os_WriteFile fs1 keyPath key of
                                (Some err, fs2) \<Rightarrow>
                                  (Some (Wrapped ''failed to write credential key file'' err),
                                   s2, fs2, rnd2)
                              | (None, fs2) \<Rightarrow>
                                  (None, s2\<lparr>credentialKey := Some key\<rparr>, fs2, rnd2)))))))"

subsection \<open>PeerStore: passwords and peers\<close>

definition encryptPassword ::
  "crypto \<Rightarrow> DoltStore \<Rightarrow> string \<Rightarrow> byte list \<Rightarrow> (error + byte list option) \<times> byte list" where
  "encryptPassword C s password rnd =
     (if password = [] then (Inr None, rnd)
      else
        (case credentialKey s of
           None \<Rightarrow> (Inl (Err ''credential encryption key not initialized''), rnd)
         | Some key \<Rightarrow>
             (case encryptWithKey C password key rnd of
                (Inl err, rnd') \<Rightarrow> (Inl err, rnd')
              | (Inr encrypted, rnd') \<Rightarrow> (Inr (Some encrypted), rnd'))))"

definition decryptPassword :: "crypto \<Rightarrow> DoltStore \<Rightarrow> byte list option \<Rightarrow> error + string" where
  "decryptPassword C s encrypted =
     (if len encrypted = 0 then Inr []
      else
        (case credentialKey s of
           None \<Rightarrow> Inl (Err ''credential encryption key not initialized'')
         | Some key \<Rightarrow> decryptWithKey C (bytes encrypted) key))"

text \<open>\<^verbatim>\<open>err.Error()\<close>, and \<^verbatim>\<open>strings.Contains\<close>.\<close>

fun Error :: "error \<Rightarrow> string" where
  "Error (Err m) = m"
| "Error (Wrapped m e) = m @ '': '' @ Error e"
| "Error (Annotated e m) = Error e @ '': '' @ m"
| "Error (KeySizeError n) = ''crypto/aes: invalid key size''"
| "Error ErrUnexpectedEOF = ''unexpected EOF''"
| "Error ErrOpen = ''cipher: message authentication failed''"
| "Error ErrNoRows = ''sql: no rows in result set''"
| "Error ErrNotFound = ''not found''"
| "Error (StoreError m) = m"
| "Error NilPointerPanic = ''invalid memory address or nil pointer dereference''"

definition strings_HasPrefix :: "string \<Rightarrow> string \<Rightarrow> bool" where
  "strings_HasPrefix s pre = (length pre \<le> length s \<and> take (length pre) s = pre)"

fun strings_Contains :: "string \<Rightarrow> string \<Rightarrow> bool" where
  "strings_Contains [] sub = (sub = [])"
| "strings_Contains (c # cs) sub = (strings_HasPrefix (c # cs) sub \<or> strings_Contains cs sub)"

text \<open>
  \<^verbatim>\<open>AddFederationPeer\<close>. The clock gives \<open>now\<close>; \<open>addRemote\<close> is the outcome of
  \<^verbatim>\<open>s.AddRemote\<close>, the remote adapter outside this code. The store returned is the
  store as the call leaves it, also when the call fails. The wrappers
  \<^verbatim>\<open>s.execContext\<close> and \<^verbatim>\<open>s.queryContext\<close> run a statement on \<^verbatim>\<open>s.db\<close>; on a
  store without a connection the call goes through a nil pointer.
\<close>

definition AddFederationPeer ::
  "crypto \<Rightarrow> (string \<Rightarrow> string \<Rightarrow> error option) \<Rightarrow> nat \<Rightarrow> DoltStore \<Rightarrow> FederationPeer \<Rightarrow> byte list
     \<Rightarrow> error option \<times> DoltStore \<times> byte list" where
  "AddFederationPeer C addRemote now s peer rnd =
     (case validatePeerName (Name peer) of
        Some err \<Rightarrow> (Some (Wrapped ''invalid peer name'' err), s, rnd)
      | None \<Rightarrow>
          (case (if Password peer \<noteq> [] then encryptPassword C s (Password peer) rnd
                 else (Inr None, rnd)) of
             (Inl err, rnd') \<Rightarrow> (Some (Wrapped ''failed to encrypt password'' err), s, rnd')
           | (Inr encryptedPwd, rnd') \<Rightarrow>
               (case db s of
                  None \<Rightarrow> (Some NilPointerPanic, s, rnd')
                | Some d \<Rightarrow>
                    (case upsert_peer d (Name peer) (RemoteURL peer) (Username peer)
                            encryptedPwd (Sovereignty peer) now of
                       Inl err \<Rightarrow> (Some (Wrapped ''failed to add federation peer'' err), s, rnd')
                     | Inr d' \<Rightarrow>
                         (case addRemote (Name peer) (RemoteURL peer) of
                            None \<Rightarrow> (None, s\<lparr>db := Some d'\<rparr>, rnd')
                          | Some err \<Rightarrow>
                              (if \<not> strings_Contains (Error err) ''already exists''
                               then (Some (Wrapped ''failed to add dolt remote'' err),
                                     s\<lparr>db := Some d'\<rparr>, rnd')
                               else (None, s\<lparr>db := Some d'\<rparr>, rnd')))))))"

text \<open>
  What \<^verbatim>\<open>GetFederationPeer\<close> and \<^verbatim>\<open>ListFederationPeers\<close> both do with a scanned
  row: copy the columns, an absent username or last sync left at its zero value, and
  decrypt the password when there is one.
\<close>

definition peerOfRow :: "crypto \<Rightarrow> DoltStore \<Rightarrow> peer_row \<Rightarrow> error + FederationPeer" where
  "peerOfRow C s r =
     (let encryptedPwd = row_password_encrypted r;
          peer = \<lparr>Name = row_name r, RemoteURL = row_remote_url r,
                  Username = (case row_username r of None \<Rightarrow> [] | Some u \<Rightarrow> u),
                  Password = [], Sovereignty = row_sovereignty r,
                  LastSync = row_last_sync r,
                  CreatedAt = row_created_at r, UpdatedAt = row_updated_at r\<rparr>
      in if len encryptedPwd > 0
         then (case decryptPassword C s encryptedPwd of
                 Inl err \<Rightarrow> Inl (Wrapped ''failed to decrypt password'' err)
               | Inr password \<Rightarrow> Inr (peer\<lparr>Password := password\<rparr>))
         else Inr peer)"

definition GetFederationPeer :: "crypto \<Rightarrow> DoltStore \<Rightarrow> string \<Rightarrow> error + FederationPeer" where
  "GetFederationPeer C s name =
     (case db s of
        None \<Rightarrow> Inl NilPointerPanic
      | Some d \<Rightarrow>
          (case select_peer d name of
             Inl err \<Rightarrow>
               (if err = ErrNoRows then Inl (Annotated ErrNotFound (''federation peer '' @ name))
                else Inl (Wrapped ''failed to get federation peer'' err))
           | Inr r \<Rightarrow> peerOfRow C s r))"

fun scanPeers :: "crypto \<Rightarrow> DoltStore \<Rightarrow> peer_row list \<Rightarrow> error + FederationPeer list" where
  "scanPeers C s [] = Inr []"
| "scanPeers C s (r # rows) =
     (case peerOfRow C s r of
        Inl err \<Rightarrow> Inl err
      | Inr peer \<Rightarrow>
          (case scanPeers C s rows of
             Inl err \<Rightarrow> Inl err
           | Inr peers \<Rightarrow> Inr (peer # peers)))"

definition ListFederationPeers :: "crypto \<Rightarrow> DoltStore \<Rightarrow> error + FederationPeer list" where
  "ListFederationPeers C s =
     (case db s of
        None \<Rightarrow> Inl NilPointerPanic
      | Some d \<Rightarrow>
          (case select_peers d of
             Inl err \<Rightarrow> Inl (Wrapped ''failed to list federation peers'' err)
           | Inr rows \<Rightarrow> scanPeers C s rows))"

subsection \<open>CredentialInjector: \<^verbatim>\<open>applyToCmd\<close> and \<^verbatim>\<open>withEnvCredentials\<close>\<close>

text \<open>
  The process: its environment, as the list of \<^verbatim>\<open>KEY=value\<close> strings that
  \<^verbatim>\<open>os.Environ\<close> returns, and the package's mutex (\<^const>\<open>True\<close> when it is held).
  \<^verbatim>\<open>os.Setenv\<close> refuses an empty key, a key with \<^verbatim>\<open>=\<close> or a NUL byte, and a
  value with a NUL byte.
\<close>

record process =
  environ :: "string list"
  federationEnvMutex :: bool

definition NUL :: char where
  "NUL = CHR 0x00"

definition os_Unsetenv :: "string \<Rightarrow> string list \<Rightarrow> string list" where
  "os_Unsetenv key env = filter (\<lambda>e. \<not> strings_HasPrefix e (key @ ''='')) env"

definition os_Setenv :: "string \<Rightarrow> string \<Rightarrow> string list \<Rightarrow> error option \<times> string list" where
  "os_Setenv key v env =
     (if key = [] \<or> CHR ''='' \<in> set key \<or> NUL \<in> set key \<or> NUL \<in> set v
      then (Some (Err ''invalid argument''), env)
      else if list_ex (\<lambda>e. strings_HasPrefix e (key @ ''='')) env
      then (None, map (\<lambda>e. if strings_HasPrefix e (key @ ''='') then key @ ''='' @ v else e) env)
      else (None, env @ [key @ ''='' @ v]))"

definition os_LookupEnv :: "string \<Rightarrow> string list \<Rightarrow> string option" where
  "os_LookupEnv key env =
     (case find (\<lambda>e. strings_HasPrefix e (key @ ''='')) env of
        None \<Rightarrow> None
      | Some e \<Rightarrow> Some (drop (length key + 1) e))"

record remoteCredentials =
  creds_Username :: string
  creds_Password :: string

text \<open>The receiver is a pointer: \<^const>\<open>None\<close> is nil.\<close>

definition creds_empty :: "remoteCredentials option \<Rightarrow> bool" where
  "creds_empty c =
     (case c of None \<Rightarrow> True | Some c' \<Rightarrow> creds_Username c' = [] \<and> creds_Password c' = [])"

text \<open>An \<^verbatim>\<open>exec.Cmd\<close>; a nil \<^verbatim>\<open>Env\<close> lets the child inherit the environment.\<close>

record Cmd =
  Path :: string
  Args :: "string list"
  Env :: "string list option"

definition applyToCmd :: "remoteCredentials option \<Rightarrow> Cmd \<Rightarrow> process \<Rightarrow> Cmd \<times> process" where
  "applyToCmd c cmd p =
     (case c of
        None \<Rightarrow> (cmd, p)
      | Some c' \<Rightarrow>
          (if creds_empty c then (cmd, p)
           else
             (let env0 = filter (\<lambda>e. \<not> strings_HasPrefix e ''DOLT_REMOTE_USER=''
                                    \<and> \<not> strings_HasPrefix e ''DOLT_REMOTE_PASSWORD='') (environ p);
                  env1 = (if creds_Username c' \<noteq> []
                          then env0 @ [''DOLT_REMOTE_USER='' @ creds_Username c'] else env0);
                  env2 = (if creds_Password c' \<noteq> []
                          then env1 @ [''DOLT_REMOTE_PASSWORD='' @ creds_Password c'] else env1)
              in (cmd\<lparr>Env := Some env2\<rparr>, p))))"

text \<open>
  \<^verbatim>\<open>setFederationCredentials\<close> returns the environment it leaves and the cleanup
  function; the errors of \<^verbatim>\<open>os.Setenv\<close> and \<^verbatim>\<open>os.Unsetenv\<close> are dropped, as in the
  code.
\<close>

definition setFederationCredentials ::
  "string \<Rightarrow> string \<Rightarrow> string list \<Rightarrow> string list \<times> (string list \<Rightarrow> string list)" where
  "setFederationCredentials username password env =
     (let env1 = (if username \<noteq> [] then snd (os_Setenv ''DOLT_REMOTE_USER'' username env) else env);
          env2 = (if password \<noteq> [] then snd (os_Setenv ''DOLT_REMOTE_PASSWORD'' password env1)
                  else env1)
      in (env2, \<lambda>e. os_Unsetenv ''DOLT_REMOTE_PASSWORD'' (os_Unsetenv ''DOLT_REMOTE_USER'' e)))"

text \<open>
  How a call ends: it returns its error (or nil), it panics, or it never gets the
  mutex. The wrapped operation \<open>fn\<close> runs in the process: it sees the process as it is
  when called, may change the environment, and returns or panics.
\<close>

datatype outcome = Returned "error option" | Panicked string | Blocked

definition withEnvCredentials ::
  "remoteCredentials option \<Rightarrow> (process \<Rightarrow> outcome \<times> string list) \<Rightarrow> process \<Rightarrow> outcome \<times> process" where
  "withEnvCredentials creds fn p =
     (case creds of
        None \<Rightarrow> (case fn p of (r, env') \<Rightarrow> (r, p\<lparr>environ := env'\<rparr>))
      | Some c \<Rightarrow>
          (if creds_empty creds then (case fn p of (r, env') \<Rightarrow> (r, p\<lparr>environ := env'\<rparr>))
           else if federationEnvMutex p then (Blocked, p)
           else
             (let p1 = p\<lparr>federationEnvMutex := True\<rparr>;
                  (env2, cleanup) = setFederationCredentials (creds_Username c) (creds_Password c)
                                      (environ p1);
                  p2 = p1\<lparr>environ := env2\<rparr>;
                  (r, env3) = fn p2;
                  p3 = p2\<lparr>environ := cleanup env3\<rparr>;
                  p4 = p3\<lparr>federationEnvMutex := False\<rparr>
              in (r, p4))))"

section \<open>Assumptions on the primitives, and an instance\<close>

text \<open>
  What the code needs from AES-GCM: opening a sealed box with the key and nonce it
  was sealed with returns the plaintext. Keys are 32 bytes, nonces \<^const>\<open>NonceSize\<close>.
\<close>

definition aead_correct :: "crypto \<Rightarrow> bool" where
  "aead_correct C \<longleftrightarrow>
     (\<forall>key nonce p. length key = 32 \<longrightarrow> length nonce = NonceSize \<longrightarrow>
        aead_open C key nonce (aead_seal C key nonce p) = Some p)"

text \<open>
  A small instance of the interface, used to evaluate the model on concrete inputs:
  the box is the shifted plaintext followed by a one-byte tag over key and nonce, and
  the digest repeats the length of its input.
\<close>

definition toy_seal :: "byte list \<Rightarrow> byte list \<Rightarrow> byte list \<Rightarrow> byte list" where
  "toy_seal key nonce p = map (\<lambda>b. b + sum_list key) p @ [sum_list key + sum_list nonce]"

definition toy_open :: "byte list \<Rightarrow> byte list \<Rightarrow> byte list \<Rightarrow> byte list option" where
  "toy_open key nonce box =
     (if box \<noteq> [] \<and> last box = sum_list key + sum_list nonce
      then Some (map (\<lambda>b. b - sum_list key) (butlast box)) else None)"

definition toy_crypto :: crypto where
  "toy_crypto = \<lparr> sha256_Sum = (\<lambda>b. replicate 32 (of_nat (length b))),
                  aead_seal = toy_seal, aead_open = toy_open \<rparr>"


text \<open>
  A second instance, which satisfies both assumptions: the box is the plaintext
  shifted by the nonce, followed by the key as its tag.
\<close>

definition keyed_seal :: "byte list \<Rightarrow> byte list \<Rightarrow> byte list \<Rightarrow> byte list" where
  "keyed_seal key nonce p = map (\<lambda>b. b + sum_list nonce) p @ key"

definition keyed_open :: "byte list \<Rightarrow> byte list \<Rightarrow> byte list \<Rightarrow> byte list option" where
  "keyed_open key nonce box =
     (if length key \<le> length box \<and> drop (length box - length key) box = key
      then Some (map (\<lambda>b. b - sum_list nonce) (take (length box - length key) box))
      else None)"

definition keyed_crypto :: crypto where
  "keyed_crypto = \<lparr> sha256_Sum = (\<lambda>b. replicate 32 (of_nat (length b))),
                    aead_seal = keyed_seal, aead_open = keyed_open \<rparr>"

subsection \<open>Peer names, as the data model describes them\<close>

text \<open>
  The language of a regular expression, to state what the matcher decides.
\<close>

inductive_set star :: "string set \<Rightarrow> string set" for A :: "string set" where
  star_Nil: "[] \<in> star A"
| star_app: "u \<in> A \<Longrightarrow> v \<in> star A \<Longrightarrow> u @ v \<in> star A"

fun lang :: "regex \<Rightarrow> string set" where
  "lang Zero = {}"
| "lang One = {[]}"
| "lang (Class rs) = {[c] | c. in_class c rs}"
| "lang (Alt r s) = lang r \<union> lang s"
| "lang (Seq r s) = {u @ v | u v. u \<in> lang r \<and> v \<in> lang s}"
| "lang (Star r) = star (lang r)"

text \<open>
  A peer name starts with a letter, goes on with letters, digits, hyphens and
  underscores, and has 1 to 64 characters.
\<close>

definition letter :: "char \<Rightarrow> bool" where
  "letter c \<longleftrightarrow> (CHR ''a'' \<le> c \<and> c \<le> CHR ''z'') \<or> (CHR ''A'' \<le> c \<and> c \<le> CHR ''Z'')"

definition digit :: "char \<Rightarrow> bool" where
  "digit c \<longleftrightarrow> CHR ''0'' \<le> c \<and> c \<le> CHR ''9''"

definition peer_name_ok :: "string \<Rightarrow> bool" where
  "peer_name_ok s \<longleftrightarrow>
     1 \<le> length s \<and> length s \<le> 64 \<and> letter (hd s)
     \<and> list_all (\<lambda>c. letter c \<or> digit c \<or> c = CHR ''-'' \<or> c = CHR ''_'') (tl s)"

subsection \<open>Concrete stores and peers\<close>

text \<open>A row and a peer named \<open>origin\<close>, and a store that has a database but no key.\<close>

definition origin_row :: peer_row where
  "origin_row = \<lparr>row_name = ''origin'', row_remote_url = ''https://x/y'', row_username = None,
                  row_password_encrypted = None, row_sovereignty = [], row_last_sync = None,
                  row_created_at = 0, row_updated_at = 0\<rparr>"

definition keyless_store :: "peer_row list \<Rightarrow> DoltStore" where
  "keyless_store rows =
     \<lparr>dbPath = [], credentialKey = None, db = Some \<lparr>federation_peers = Some rows\<rparr>\<rparr>"

definition origin_peer :: "string \<Rightarrow> FederationPeer" where
  "origin_peer pw = \<lparr>Name = ''origin'', RemoteURL = ''https://x/y'', Username = [], Password = pw,
                      Sovereignty = [], LastSync = None, CreatedAt = 0, UpdatedAt = 0\<rparr>"

subsection \<open>The environment of a child process\<close>

text \<open>
  The ambient environment without its entries for the two credential variables,
  followed by the user variable when the username is not empty and by the password
  variable when the password is not empty.
\<close>

definition child_env :: "remoteCredentials \<Rightarrow> string list \<Rightarrow> string list" where
  "child_env c env =
     filter (\<lambda>e. \<not> strings_HasPrefix e ''DOLT_REMOTE_USER=''
                \<and> \<not> strings_HasPrefix e ''DOLT_REMOTE_PASSWORD='') env
     @ (if creds_Username c \<noteq> [] then [''DOLT_REMOTE_USER='' @ creds_Username c] else [])
     @ (if creds_Password c \<noteq> [] then [''DOLT_REMOTE_PASSWORD='' @ creds_Password c] else [])"

text \<open>Two peers, a parent process with a stale user variable, and a command.\<close>

definition alpha :: remoteCredentials where
  "alpha = \<lparr>creds_Username = ''a'', creds_Password = ''a1''\<rparr>"

definition beta :: remoteCredentials where
  "beta = \<lparr>creds_Username = ''b'', creds_Password = ''b1''\<rparr>"

definition parent :: process where
  "parent = \<lparr>environ = [''PATH=/bin'', ''DOLT_REMOTE_USER=stale''], federationEnvMutex = False\<rparr>"

definition dolt :: Cmd where
  "dolt = \<lparr>Path = ''dolt'', Args = [''dolt'', ''push''], Env = None\<rparr>"

subsection \<open>The shared environment around a wrapped operation\<close>

text \<open>
  The pairs that \<^verbatim>\<open>os.Setenv\<close> accepts; the environment that
  \<^const>\<open>setFederationCredentials\<close> leaves for the wrapped operation; the environment
  after its cleanup function; and two wrapped operations, one that fails after
  setting a variable of its own, one that reports the user variable it sees.
\<close>

definition setenv_ok :: "string \<Rightarrow> string \<Rightarrow> bool" where
  "setenv_ok key v \<longleftrightarrow> key \<noteq> [] \<and> CHR ''='' \<notin> set key \<and> NUL \<notin> set key \<and> NUL \<notin> set v"

definition injected :: "remoteCredentials \<Rightarrow> string list \<Rightarrow> string list" where
  "injected c env = fst (setFederationCredentials (creds_Username c) (creds_Password c) env)"

definition cleaned :: "string list \<Rightarrow> string list" where
  "cleaned env = os_Unsetenv ''DOLT_REMOTE_PASSWORD'' (os_Unsetenv ''DOLT_REMOTE_USER'' env)"

definition failing_push :: "process \<Rightarrow> outcome \<times> string list" where
  "failing_push q = (Returned (Some (Err ''push failed'')), environ q @ [''DOLT_REMOTE_USER=x''])"

definition report_user :: "process \<Rightarrow> outcome \<times> string list" where
  "report_user q =
     (Returned (map_option Err (os_LookupEnv ''DOLT_REMOTE_USER'' (environ q))), environ q)"

subsection \<open>What migration does to a row\<close>

text \<open>
  A row with a non-empty encrypted password that decrypts under the old key gets the
  plaintext sealed under the new key with some nonce; any other row stays as it is.
\<close>

definition migrated_row :: "crypto \<Rightarrow> byte list \<Rightarrow> byte list \<Rightarrow> peer_row \<Rightarrow> peer_row \<Rightarrow> bool" where
  "migrated_row C oldKey newKey r r' \<longleftrightarrow>
     (if 0 < len (row_password_encrypted r)
      then (case decryptWithKey C (bytes (row_password_encrypted r)) oldKey of
              Inl err \<Rightarrow> r' = r
            | Inr plaintext \<Rightarrow>
                (\<exists>nonce. length nonce = NonceSize
                   \<and> r' = r\<lparr>row_password_encrypted :=
                               Some (nonce @ aead_seal C newKey nonce (bytes_of_string plaintext))\<rparr>))
      else r' = r)"



text \<open>
  A store at \<open>/d\<close> whose table holds a row encrypted under the legacy key of that
  path, for the small instance of the primitives.
\<close>

definition legacy_key :: "byte list" where
  "legacy_key = sha256_Sum toy_crypto (bytes_of_string (''/d'' @ ''beads-federation-key-v1''))"

definition bot_row :: peer_row where
  "bot_row = origin_row\<lparr>row_name := ''bot1'',
               row_password_encrypted :=
                 Some (replicate 12 0
                       @ aead_seal toy_crypto legacy_key (replicate 12 0) (bytes_of_string ''pw''))\<rparr>"

definition legacy_store :: "database option \<Rightarrow> DoltStore" where
  "legacy_store d = \<lparr>dbPath = ''/d'', credentialKey = None, db = d\<rparr>"

section \<open>Basic facts\<close>

lemma char_of_unat_of_char: "char_of (unat (of_char c :: byte)) = c"
proof -
  have "(of_char c :: byte) = of_nat (of_char c)"
    by (simp only: of_nat_of_char)
  then have "unat (of_char c :: byte) = (of_char c :: nat) mod 256"
    by (simp add: unat_of_nat)
  then show ?thesis by simp
qed

lemma string_of_bytes_of_string: "string_of_bytes (bytes_of_string s) = s"
  by (induction s) (simp_all add: string_of_bytes_def bytes_of_string_def char_of_unat_of_char)

lemma toy_crypto_correct: "aead_correct toy_crypto"
  by (simp add: aead_correct_def toy_crypto_def toy_seal_def toy_open_def comp_def)

section \<open>Cipher\<close>

text \<open>
  Claim C1. For every plaintext \<open>P\<close> and every 32-byte key \<open>K\<close>, whatever nonce the
  random source delivers, \<^const>\<open>encryptWithKey\<close> returns a blob (the nonce followed
  by the sealed box) and \<^const>\<open>decryptWithKey\<close> of that blob under \<open>K\<close> returns
  exactly \<open>P\<close>. The AEAD is assumed to open what it sealed, and the random source
  to deliver the twelve bytes of the nonce.
\<close>

theorem encrypt_then_decrypt:
  assumes "aead_correct C" and "length K = 32" and "NonceSize \<le> length rnd"
  shows "\<exists>blob. encryptWithKey C P K rnd = (Inr blob, drop NonceSize rnd)
           \<and> blob = take NonceSize rnd @ aead_seal C K (take NonceSize rnd) (bytes_of_string P)
           \<and> decryptWithKey C blob K = Inr P"
proof -
  let ?n = "take NonceSize rnd"
  let ?blob = "?n @ aead_seal C K ?n (bytes_of_string P)"
  have len: "length ?n = NonceSize"
    using assms(3) by simp
  have enc: "encryptWithKey C P K rnd = (Inr ?blob, drop NonceSize rnd)"
    using assms(2,3)
    by (simp add: encryptWithKey_def aes_NewCipher_def cipher_NewGCM_def io_ReadFull_def
        gcm_Seal_def)
  have op: "aead_open C K ?n (aead_seal C K ?n (bytes_of_string P)) = Some (bytes_of_string P)"
    using assms(1,2) len by (simp add: aead_correct_def)
  have dec: "decryptWithKey C ?blob K = Inr P"
    using assms(2) len op
    by (simp add: decryptWithKey_def aes_NewCipher_def cipher_NewGCM_def gcm_Open_def
        string_of_bytes_of_string)
  show ?thesis using enc dec by simp
qed

theorem encrypt_then_decrypt_witness:
  "\<exists>blob. encryptWithKey toy_crypto ''secret'' (replicate 32 7) (replicate 12 1 @ [9, 9])
             = (Inr blob, [9, 9])
     \<and> decryptWithKey toy_crypto blob (replicate 32 7) = Inr ''secret''"
  using encrypt_then_decrypt [OF toy_crypto_correct,
      of "replicate 32 7" "replicate 12 1 @ [9, 9]" "''secret''"]
  by (simp add: NonceSize_def)

lemma decryptWithKey_unfold:
  "decryptWithKey C blob key =
     (if \<not> (length key = 16 \<or> length key = 24 \<or> length key = 32) then Inl (KeySizeError (length key))
      else if length blob < NonceSize then Inl (Err ''ciphertext too short'')
      else (case aead_open C key (take NonceSize blob) (drop NonceSize blob) of
              None \<Rightarrow> Inl ErrOpen
            | Some p \<Rightarrow> Inr (string_of_bytes p)))"
  by (simp add: decryptWithKey_def aes_NewCipher_def cipher_NewGCM_def gcm_Open_def
      split: option.splits)

lemma encryptWithKey_unfold:
  "encryptWithKey C P key rnd =
     (if \<not> (length key = 16 \<or> length key = 24 \<or> length key = 32)
      then (Inl (KeySizeError (length key)), rnd)
      else if length rnd < NonceSize then (Inl ErrUnexpectedEOF, [])
      else (Inr (take NonceSize rnd @ aead_seal C key (take NonceSize rnd) (bytes_of_string P)),
            drop NonceSize rnd))"
  by (simp add: encryptWithKey_def aes_NewCipher_def cipher_NewGCM_def io_ReadFull_def
      gcm_Seal_def)

lemma keyed_crypto_correct: "aead_correct keyed_crypto"
  by (simp add: aead_correct_def keyed_crypto_def keyed_seal_def keyed_open_def comp_def)




section \<open>Peer names\<close>

lemma nullable_lang: "nullable r \<longleftrightarrow> [] \<in> lang r"
  by (induction r) (auto intro: star.intros)

lemma star_Cons:
  "c # w \<in> star A \<longleftrightarrow> (\<exists>u v. w = u @ v \<and> c # u \<in> A \<and> v \<in> star A)"
proof
  assume "c # w \<in> star A"
  then show "\<exists>u v. w = u @ v \<and> c # u \<in> A \<and> v \<in> star A"
  proof (induction "c # w" rule: star.induct)
    case (star_app u v)
    then show ?case by (cases u) auto
  qed
next
  assume "\<exists>u v. w = u @ v \<and> c # u \<in> A \<and> v \<in> star A"
  then obtain u v where "w = u @ v" "c # u \<in> A" "v \<in> star A" by blast
  then show "c # w \<in> star A"
    using star_app [of "c # u" A v] by simp
qed

lemma deriv_lang: "w \<in> lang (deriv c r) \<longleftrightarrow> c # w \<in> lang r"
proof (induction r arbitrary: w)
  case (Seq r s)
  show ?case
  proof (cases "nullable r")
    case True
    then show ?thesis
      using Seq by (auto simp: nullable_lang Cons_eq_append_conv) 
  next
    case False
    then show ?thesis
      using Seq by (auto simp: nullable_lang Cons_eq_append_conv)
  qed
next
  case (Star r)
  then show ?case by (auto simp: star_Cons)
qed auto

lemma MatchString_lang: "MatchString r s \<longleftrightarrow> s \<in> lang r"
  unfolding MatchString_def
  by (induction s arbitrary: r) (simp_all add: nullable_lang deriv_lang)

lemma star_singletons:
  "w \<in> star {[c] | c. P c} \<longleftrightarrow> list_all P w"
proof (induction w)
  case Nil
  show ?case by (simp add: star.intros)
next
  case (Cons a w)
  show ?case
    using Cons by (auto simp: star_Cons)
qed


lemma lang_Seq_Class:
  "w \<in> lang (Seq (Class rs) r) \<longleftrightarrow> w \<noteq> [] \<and> in_class (hd w) rs \<and> tl w \<in> lang r"
proof
  assume "w \<in> lang (Seq (Class rs) r)"
  then obtain c v where "w = [c] @ v" "in_class c rs" "v \<in> lang r"
    by auto
  then show "w \<noteq> [] \<and> in_class (hd w) rs \<and> tl w \<in> lang r"
    by simp
next
  assume h: "w \<noteq> [] \<and> in_class (hd w) rs \<and> tl w \<in> lang r"
  then have "w = [hd w] @ tl w" by simp
  moreover have "[hd w] \<in> lang (Class rs)" using h by simp
  ultimately have "\<exists>u v. w = u @ v \<and> u \<in> lang (Class rs) \<and> v \<in> lang r"
    using h by blast
  then show "w \<in> lang (Seq (Class rs) r)"
    by simp
qed

lemma validPeerNameRegex_match:
  "MatchString validPeerNameRegex s \<longleftrightarrow>
     s \<noteq> [] \<and> letter (hd s)
     \<and> list_all (\<lambda>c. letter c \<or> digit c \<or> c = CHR ''-'' \<or> c = CHR ''_'') (tl s)"
proof -
  have cls: "in_class c [(CHR ''a'', CHR ''z''), (CHR ''A'', CHR ''Z''), (CHR ''0'', CHR ''9''),
                       (CHR ''_'', CHR ''_''), (CHR ''-'', CHR ''-'')]
             \<longleftrightarrow> letter c \<or> digit c \<or> c = CHR ''-'' \<or> c = CHR ''_''" for c
    by (auto simp: letter_def digit_def)
  have hdc: "in_class c [(CHR ''a'', CHR ''z''), (CHR ''A'', CHR ''Z'')] \<longleftrightarrow> letter c" for c
    by (auto simp: letter_def)
  show ?thesis
    by (simp add: MatchString_lang validPeerNameRegex_def lang_Seq_Class star_singletons cls hdc
        del: in_class.simps lang.simps(5))
qed

lemma validatePeerName_iff: "validatePeerName s = None \<longleftrightarrow> peer_name_ok s"
  by (cases s) (auto simp: validatePeerName_def validPeerNameRegex_match peer_name_ok_def)

text \<open>
  Claim C6. \<^const>\<open>validatePeerName\<close> accepts a string exactly when it starts with
  a letter, every following character is a letter, a digit, a hyphen or an underscore,
  and its length is 1 to 64. So \<open>bot1\<close> is accepted; \<open>1bot\<close>, the empty name and
  every name of 65 characters are rejected; and \<^const>\<open>AddFederationPeer\<close> fails on
  a rejected name with the validation error, leaving the store as it was.
\<close>

theorem validatePeerName_accepts:
  "(validatePeerName s = None \<longleftrightarrow> peer_name_ok s)
   \<and> validatePeerName ''bot1'' = None
   \<and> validatePeerName ''1bot'' \<noteq> None
   \<and> validatePeerName [] \<noteq> None
   \<and> (length s = 65 \<longrightarrow> validatePeerName s \<noteq> None)
   \<and> (validatePeerName (Name peer) \<noteq> None \<longrightarrow>
        (\<exists>err. validatePeerName (Name peer) = Some err
           \<and> AddFederationPeer C addRemote now st peer rnd
               = (Some (Wrapped ''invalid peer name'' err), st, rnd)))"
proof -
  have a: "validatePeerName ''bot1'' = None"
    by (simp add: validatePeerName_iff peer_name_ok_def letter_def digit_def)
  have b: "validatePeerName ''1bot'' \<noteq> None"
    by (simp add: validatePeerName_iff peer_name_ok_def letter_def digit_def)
  have c: "validatePeerName [] \<noteq> None"
    by (simp add: validatePeerName_def)
  have d: "length s = 65 \<longrightarrow> validatePeerName s \<noteq> None"
    by (auto simp: validatePeerName_def)
  have e: "validatePeerName (Name peer) \<noteq> None \<longrightarrow>
        (\<exists>err. validatePeerName (Name peer) = Some err
           \<and> AddFederationPeer C addRemote now st peer rnd
               = (Some (Wrapped ''invalid peer name'' err), st, rnd))"
    by (auto simp: AddFederationPeer_def)
  show ?thesis using validatePeerName_iff a b c d e by blast
qed

theorem validatePeerName_accepts_witness:
  "validatePeerName (replicate 65 CHR ''a'') \<noteq> None
   \<and> (\<exists>err. AddFederationPeer toy_crypto (\<lambda>n u. None) 0
               \<lparr>dbPath = ''/data'', credentialKey = None, db = None\<rparr>
               \<lparr>Name = ''1bot'', RemoteURL = ''https://x/y'', Username = [], Password = ''secret'',
                 Sovereignty = [], LastSync = None, CreatedAt = 0, UpdatedAt = 0\<rparr> []
             = (Some (Wrapped ''invalid peer name'' err),
                \<lparr>dbPath = ''/data'', credentialKey = None, db = None\<rparr>, []))
   \<and> validatePeerName ''a-b_c9'' = None"
proof -
  let ?peer = "\<lparr>Name = ''1bot'', RemoteURL = ''https://x/y'', Username = [], Password = ''secret'',
                 Sovereignty = [], LastSync = None, CreatedAt = 0, UpdatedAt = 0\<rparr>"
  let ?st = "\<lparr>dbPath = ''/data'', credentialKey = None, db = None\<rparr>"
  note T = validatePeerName_accepts [of _ ?peer toy_crypto "\<lambda>n u. None" 0 ?st "[]"]
  have "length (replicate 65 CHR ''a'') = 65 \<longrightarrow> validatePeerName (replicate 65 CHR ''a'') \<noteq> None"
    using T [of "replicate 65 CHR ''a''"] by blast
  then have 1: "validatePeerName (replicate 65 CHR ''a'') \<noteq> None"
    by simp
  have "validatePeerName ''1bot'' \<noteq> None"
    using T [of "[]"] by blast
  then have nb: "validatePeerName (Name ?peer) \<noteq> None"
    by simp
  have 2: "\<exists>err. AddFederationPeer toy_crypto (\<lambda>n u. None) 0 ?st ?peer []
             = (Some (Wrapped ''invalid peer name'' err), ?st, [])"
    using T [of "[]"] nb by blast
  have ok: "peer_name_ok ''a-b_c9''"
    by (simp add: peer_name_ok_def letter_def digit_def)
  have 3: "validatePeerName ''a-b_c9'' = None"
    using T [of "''a-b_c9''"] ok by blast
  show ?thesis using 1 2 3 by blast
qed

section \<open>Peer store\<close>

lemma decryptPassword_empty: "len e = 0 \<Longrightarrow> decryptPassword C s e = Inr []"
  by (simp add: decryptPassword_def)

lemma peerOfRow_empty:
  "len (row_password_encrypted r) = 0 \<Longrightarrow>
     peerOfRow C s r =
       Inr \<lparr>Name = row_name r, RemoteURL = row_remote_url r,
            Username = (case row_username r of None \<Rightarrow> [] | Some u \<Rightarrow> u),
            Password = [], Sovereignty = row_sovereignty r, LastSync = row_last_sync r,
            CreatedAt = row_created_at r, UpdatedAt = row_updated_at r\<rparr>"
  by (simp add: peerOfRow_def)

lemma peerOfRow_no_key:
  "credentialKey s = None \<Longrightarrow> isl (peerOfRow C s r) \<longleftrightarrow> 0 < len (row_password_encrypted r)"
  by (simp add: peerOfRow_def decryptPassword_def Let_def)

lemma scanPeers_empty:
  "list_all (\<lambda>r. len (row_password_encrypted r) = 0) rows \<Longrightarrow>
     \<exists>ps. scanPeers C s rows = Inr ps \<and> list_all (\<lambda>p. Password p = []) ps
          \<and> map Name ps = map row_name rows"
proof (induction rows)
  case Nil
  then show ?case by simp
next
  case (Cons r rows)
  then obtain ps where ps: "scanPeers C s rows = Inr ps" "list_all (\<lambda>p. Password p = []) ps"
    "map Name ps = map row_name rows"
    by auto
  have "len (row_password_encrypted r) = 0" using Cons.prems by simp
  then show ?case using ps by (simp add: peerOfRow_empty)
qed

lemma find_map_update:
  "(\<And>r. P r \<Longrightarrow> P (f r)) \<Longrightarrow>
     find P (map (\<lambda>r. if P r then f r else r) rows) = map_option f (find P rows)"
  by (induction rows) simp_all

lemma find_append_none: "\<not> list_ex P rows \<Longrightarrow> find P (rows @ ys) = find P ys"
  by (induction rows) simp_all

lemma find_list_ex: "list_ex P rows \<Longrightarrow> \<exists>r. find P rows = Some r \<and> P r"
  by (induction rows) auto

lemma select_after_upsert:
  assumes "federation_peers d = Some rows"
  shows "\<exists>d' r. upsert_peer d n url u enc sov now = Inr d'
           \<and> select_peer d' n = Inr r
           \<and> row_name r = n \<and> row_remote_url r = url \<and> row_username r = Some u
           \<and> row_password_encrypted r = enc \<and> row_sovereignty r = sov"
proof (cases "list_ex (\<lambda>r. row_name r = n) rows")
  case True
  let ?f = "\<lambda>r. r\<lparr>row_remote_url := url, row_username := Some u, row_password_encrypted := enc,
                   row_sovereignty := sov, row_updated_at := now\<rparr>"
  obtain r where r: "find (\<lambda>r. row_name r = n) rows = Some r" "row_name r = n"
    using find_list_ex [OF True] by blast
  have "find (\<lambda>r. row_name r = n) (map (\<lambda>r. if row_name r = n then ?f r else r) rows)
          = map_option ?f (find (\<lambda>r. row_name r = n) rows)"
    by (rule find_map_update) simp
  then show ?thesis
    using assms True r by (simp add: upsert_peer_def select_peer_def)
next
  case False
  then show ?thesis
    using assms by (simp add: upsert_peer_def select_peer_def find_append_none)
qed


lemma AddFederationPeer_empty_password:
  assumes "validatePeerName (Name peer) = None" and "Password peer = []"
    and "db s = Some d" and "federation_peers d = Some rows"
  shows "\<exists>e d' r. AddFederationPeer C addRemote now s peer rnd = (e, s\<lparr>db := Some d'\<rparr>, rnd)
           \<and> (addRemote (Name peer) (RemoteURL peer) = None \<longrightarrow> e = None)
           \<and> select_peer d' (Name peer) = Inr r
           \<and> row_name r = Name peer \<and> row_password_encrypted r = None"
proof -
  obtain d' r where u: "upsert_peer d (Name peer) (RemoteURL peer) (Username peer) None
                          (Sovereignty peer) now = Inr d'"
    and r: "select_peer d' (Name peer) = Inr r" "row_name r = Name peer"
      "row_password_encrypted r = None"
    using select_after_upsert [OF assms(4)] by blast
  show ?thesis
    using assms(1,2,3) u r
    by (cases "addRemote (Name peer) (RemoteURL peer)") (auto simp: AddFederationPeer_def)
qed

lemma origin_valid: "validatePeerName ''origin'' = None"
  by (simp add: validatePeerName_iff peer_name_ok_def letter_def digit_def)

text \<open>
  Claim C5. An empty password is stored as no ciphertext at all:
  \<^const>\<open>encryptPassword\<close> of the empty password returns nil without touching the key
  or the random source, \<^const>\<open>AddFederationPeer\<close> writes the row of the peer with
  a NULL \<open>password_encrypted\<close>, and \<^const>\<open>GetFederationPeer\<close> reads the peer back
  with the empty password. The peer has a valid name and the table exists; the row is
  written whatever the remote adapter answers.
\<close>

theorem empty_password_no_ciphertext:
  assumes "validatePeerName (Name peer) = None" and "Password peer = []"
    and "db s = Some d" and "federation_peers d = Some rows"
  shows "encryptPassword C s (Password peer) rnd = (Inr None, rnd)
         \<and> (\<exists>e s' d' r p. AddFederationPeer C addRemote now s peer rnd = (e, s', rnd)
               \<and> (addRemote (Name peer) (RemoteURL peer) = None \<longrightarrow> e = None)
               \<and> db s' = Some d' \<and> select_peer d' (Name peer) = Inr r
               \<and> row_password_encrypted r = None
               \<and> GetFederationPeer C s' (Name peer) = Inr p
               \<and> Name p = Name peer \<and> Password p = [])"
proof -
  obtain e d' r where a: "AddFederationPeer C addRemote now s peer rnd = (e, s\<lparr>db := Some d'\<rparr>, rnd)"
    "addRemote (Name peer) (RemoteURL peer) = None \<longrightarrow> e = None"
    "select_peer d' (Name peer) = Inr r" "row_name r = Name peer" "row_password_encrypted r = None"
    using AddFederationPeer_empty_password [OF assms] by blast
  have l: "len (row_password_encrypted r) = 0"
    using a(5) by (simp add: len_def)
  have g: "\<exists>p. GetFederationPeer C (s\<lparr>db := Some d'\<rparr>) (Name peer) = Inr p
              \<and> Name p = Name peer \<and> Password p = []"
    using a(3,4) by (simp add: GetFederationPeer_def peerOfRow_empty [OF l])
  have "encryptPassword C s (Password peer) rnd = (Inr None, rnd)"
    using assms(2) by (simp add: encryptPassword_def)
  moreover have "db (s\<lparr>db := Some d'\<rparr>) = Some d'" by simp
  ultimately show ?thesis using a g by (elim exE conjE) (intro conjI exI, assumption+)
qed

theorem empty_password_no_ciphertext_witness:
  "\<exists>s' p. AddFederationPeer toy_crypto (\<lambda>n u. None) 5 (keyless_store []) (origin_peer []) []
            = (None, s', [])
        \<and> GetFederationPeer toy_crypto s' ''origin'' = Inr p \<and> Password p = []"
proof -
  have 1: "validatePeerName (Name (origin_peer [])) = None"
    using origin_valid by (simp add: origin_peer_def)
  have 2: "Password (origin_peer []) = []" by (simp add: origin_peer_def)
  have 3: "db (keyless_store []) = Some \<lparr>federation_peers = Some []\<rparr>"
    by (simp add: keyless_store_def)
  have 4: "federation_peers \<lparr>federation_peers = Some []\<rparr> = Some []" by simp
  have 5: "Name (origin_peer []) = ''origin''" by (simp add: origin_peer_def)
  show ?thesis
    using empty_password_no_ciphertext [OF 1 2 3 4, of toy_crypto "[]" "\<lambda>n u. None" 5]
    unfolding 5 by blast
qed

text \<open>
  Claim C9, as the code has it. With an empty \<open>dbPath\<close> \<^const>\<open>initCredentialKey\<close>
  returns nil and changes nothing, so the key stays nil. Storing a peer with a non-empty
  password then fails with the error of the uninitialized key, and nothing is written;
  storing a peer with an empty password needs no key and succeeds. The last theorem
  evaluates the failing call at a concrete store.
\<close>

theorem no_data_directory:
  "(dbPath s = [] \<longrightarrow> initCredentialKey C s fs rnd = (None, s, fs, rnd))
   \<and> (credentialKey s = None \<and> validatePeerName (Name peer) = None \<and> Password peer \<noteq> [] \<longrightarrow>
        AddFederationPeer C addRemote now s peer rnd
          = (Some (Wrapped ''failed to encrypt password''
                    (Err ''credential encryption key not initialized'')), s, rnd))
   \<and> (credentialKey s = None \<and> validatePeerName (Name peer) = None \<and> Password peer = []
        \<and> db s = Some d \<and> federation_peers d = Some rows
        \<and> addRemote (Name peer) (RemoteURL peer) = None \<longrightarrow>
        (\<exists>s' p. AddFederationPeer C addRemote now s peer rnd = (None, s', rnd)
           \<and> GetFederationPeer C s' (Name peer) = Inr p \<and> Password p = []))"
proof -
  have a: "dbPath s = [] \<longrightarrow> initCredentialKey C s fs rnd = (None, s, fs, rnd)"
    by (simp add: initCredentialKey_def)
  have b: "credentialKey s = None \<and> validatePeerName (Name peer) = None \<and> Password peer \<noteq> [] \<longrightarrow>
        AddFederationPeer C addRemote now s peer rnd
          = (Some (Wrapped ''failed to encrypt password''
                    (Err ''credential encryption key not initialized'')), s, rnd)"
    by (simp add: AddFederationPeer_def encryptPassword_def)
  have c: "credentialKey s = None \<and> validatePeerName (Name peer) = None \<and> Password peer = []
        \<and> db s = Some d \<and> federation_peers d = Some rows
        \<and> addRemote (Name peer) (RemoteURL peer) = None \<longrightarrow>
        (\<exists>s' p. AddFederationPeer C addRemote now s peer rnd = (None, s', rnd)
           \<and> GetFederationPeer C s' (Name peer) = Inr p \<and> Password p = [])"
  proof
    assume h: "credentialKey s = None \<and> validatePeerName (Name peer) = None \<and> Password peer = []
        \<and> db s = Some d \<and> federation_peers d = Some rows
        \<and> addRemote (Name peer) (RemoteURL peer) = None"
    then obtain e d' r where x: "AddFederationPeer C addRemote now s peer rnd = (e, s\<lparr>db := Some d'\<rparr>, rnd)"
      "addRemote (Name peer) (RemoteURL peer) = None \<longrightarrow> e = None"
      "select_peer d' (Name peer) = Inr r" "row_name r = Name peer" "row_password_encrypted r = None"
      using AddFederationPeer_empty_password [of peer s d rows C addRemote now rnd] by blast
    have l: "len (row_password_encrypted r) = 0"
      using x(5) by (simp add: len_def)
    have "\<exists>p. GetFederationPeer C (s\<lparr>db := Some d'\<rparr>) (Name peer) = Inr p \<and> Password p = []"
      using x(3) by (simp add: GetFederationPeer_def peerOfRow_empty [OF l])
    then show "\<exists>s' p. AddFederationPeer C addRemote now s peer rnd = (None, s', rnd)
           \<and> GetFederationPeer C s' (Name peer) = Inr p \<and> Password p = []"
      using x(1,2) h by auto
  qed
  show ?thesis using a b c by blast
qed

theorem no_data_directory_witness:
  "initCredentialKey toy_crypto (keyless_store []) \<lparr>fs_files = Map.empty, fs_writable = False\<rparr> [1, 2]
     = (None, keyless_store [], \<lparr>fs_files = Map.empty, fs_writable = False\<rparr>, [1, 2])
   \<and> AddFederationPeer toy_crypto (\<lambda>n u. None) 5 (keyless_store []) (origin_peer ''secret'') [1, 2]
     = (Some (Wrapped ''failed to encrypt password''
               (Err ''credential encryption key not initialized'')), keyless_store [], [1, 2])
   \<and> (\<exists>s' p. AddFederationPeer toy_crypto (\<lambda>n u. None) 5 (keyless_store []) (origin_peer []) [1, 2]
                 = (None, s', [1, 2])
           \<and> GetFederationPeer toy_crypto s' (Name (origin_peer [])) = Inr p \<and> Password p = [])"
proof -
  have v: "validatePeerName (Name (origin_peer pw)) = None" for pw
    using origin_valid by (simp add: origin_peer_def)
  have k: "dbPath (keyless_store []) = []" "credentialKey (keyless_store []) = None"
    "db (keyless_store []) = Some \<lparr>federation_peers = Some []\<rparr>"
    by (simp_all add: keyless_store_def)
  have p: "Password (origin_peer ''secret'') \<noteq> []" "Password (origin_peer []) = []"
    by (simp_all add: origin_peer_def)
  have f: "federation_peers \<lparr>federation_peers = Some []\<rparr> = Some []" by simp
  show ?thesis
    using no_data_directory [of "keyless_store []" toy_crypto
        "\<lparr>fs_files = Map.empty, fs_writable = False\<rparr>" "[1, 2]" "origin_peer ''secret''"
        "\<lambda>n u. None" 5 "\<lparr>federation_peers = Some []\<rparr>" "[]"]
      no_data_directory [of "keyless_store []" toy_crypto
        "\<lparr>fs_files = Map.empty, fs_writable = False\<rparr>" "[1, 2]" "origin_peer []"
        "\<lambda>n u. None" 5 "\<lparr>federation_peers = Some []\<rparr>" "[]"]
      v k p f
    by blast
qed

theorem no_data_directory_counterexample:
  "initCredentialKey toy_crypto (keyless_store []) \<lparr>fs_files = Map.empty, fs_writable = True\<rparr> []
     = (None, keyless_store [], \<lparr>fs_files = Map.empty, fs_writable = True\<rparr>, [])
   \<and> AddFederationPeer toy_crypto (\<lambda>n u. None) 5 (keyless_store []) (origin_peer ''secret'') []
     = (Some (Wrapped ''failed to encrypt password''
               (Err ''credential encryption key not initialized'')), keyless_store [], [])"
proof -
  have "validatePeerName (Name (origin_peer ''secret'')) = None"
    using origin_valid by (simp add: origin_peer_def)
  then have "AddFederationPeer toy_crypto (\<lambda>n u. None) 5 (keyless_store []) (origin_peer ''secret'') []
     = (Some (Wrapped ''failed to encrypt password''
               (Err ''credential encryption key not initialized'')), keyless_store [], [])"
    by (simp add: AddFederationPeer_def encryptPassword_def origin_peer_def keyless_store_def)
  moreover have "initCredentialKey toy_crypto (keyless_store []) \<lparr>fs_files = Map.empty, fs_writable = True\<rparr> []
     = (None, keyless_store [], \<lparr>fs_files = Map.empty, fs_writable = True\<rparr>, [])"
    by (simp add: initCredentialKey_def keyless_store_def)
  ultimately show ?thesis by simp
qed

text \<open>
  Claim C10. Whatever the store's key, nil included, a stored password that is NULL or
  empty decrypts to the empty string: \<^const>\<open>decryptPassword\<close> returns before it
  looks at the key. So \<^const>\<open>GetFederationPeer\<close> of such a row, and
  \<^const>\<open>ListFederationPeers\<close> of a table of such rows, succeed with empty passwords;
  without a key, reading a row fails exactly when the row holds a ciphertext.
\<close>

theorem read_without_ciphertext:
  "(len (row_password_encrypted r) = 0 \<longrightarrow>
      decryptPassword C s (row_password_encrypted r) = Inr []
      \<and> (db s = Some d \<and> select_peer d name = Inr r \<longrightarrow>
           (\<exists>p. GetFederationPeer C s name = Inr p \<and> Password p = [] \<and> Name p = row_name r)))
   \<and> (db s = Some d \<and> federation_peers d = Some rows
        \<and> list_all (\<lambda>r. len (row_password_encrypted r) = 0) rows \<longrightarrow>
        (\<exists>ps. ListFederationPeers C s = Inr ps \<and> list_all (\<lambda>p. Password p = []) ps
              \<and> map Name ps = map row_name (sort_key row_name rows)))
   \<and> (credentialKey s = None \<longrightarrow>
        (isl (peerOfRow C s r) \<longleftrightarrow> 0 < len (row_password_encrypted r)))"
proof -
  have a: "len (row_password_encrypted r) = 0 \<longrightarrow>
      decryptPassword C s (row_password_encrypted r) = Inr []
      \<and> (db s = Some d \<and> select_peer d name = Inr r \<longrightarrow>
           (\<exists>p. GetFederationPeer C s name = Inr p \<and> Password p = [] \<and> Name p = row_name r))"
    by (simp add: decryptPassword_empty GetFederationPeer_def peerOfRow_empty)
  have b: "db s = Some d \<and> federation_peers d = Some rows
        \<and> list_all (\<lambda>r. len (row_password_encrypted r) = 0) rows \<longrightarrow>
        (\<exists>ps. ListFederationPeers C s = Inr ps \<and> list_all (\<lambda>p. Password p = []) ps
              \<and> map Name ps = map row_name (sort_key row_name rows))"
  proof
    assume h: "db s = Some d \<and> federation_peers d = Some rows
        \<and> list_all (\<lambda>r. len (row_password_encrypted r) = 0) rows"
    then have "list_all (\<lambda>r. len (row_password_encrypted r) = 0) (sort_key row_name rows)"
      by (simp add: list_all_iff)
    from scanPeers_empty [OF this, of C s] h
    show "\<exists>ps. ListFederationPeers C s = Inr ps \<and> list_all (\<lambda>p. Password p = []) ps
              \<and> map Name ps = map row_name (sort_key row_name rows)"
      by (simp add: ListFederationPeers_def select_peers_def)
  qed
  show ?thesis using a b peerOfRow_no_key by blast
qed


theorem read_without_ciphertext_witness:
  "(\<exists>p. GetFederationPeer toy_crypto (keyless_store [origin_row]) ''origin'' = Inr p
        \<and> Password p = [])
   \<and> (\<exists>ps. ListFederationPeers toy_crypto (keyless_store [origin_row]) = Inr ps
        \<and> list_all (\<lambda>p. Password p = []) ps)
   \<and> \<not> isl (peerOfRow toy_crypto (keyless_store [origin_row]) origin_row)"
proof -
  let ?d = "\<lparr>federation_peers = Some [origin_row]\<rparr>"
  have 1: "len (row_password_encrypted origin_row) = 0"
    by (simp add: origin_row_def len_def)
  have 2: "db (keyless_store [origin_row]) = Some ?d \<and> select_peer ?d ''origin'' = Inr origin_row"
    by (simp add: keyless_store_def select_peer_def origin_row_def)
  have 3: "db (keyless_store [origin_row]) = Some ?d \<and> federation_peers ?d = Some [origin_row]
        \<and> list_all (\<lambda>r. len (row_password_encrypted r) = 0) [origin_row]"
    using 1 by (simp add: keyless_store_def)
  have 4: "credentialKey (keyless_store [origin_row]) = None"
    by (simp add: keyless_store_def)
  have 5: "\<not> 0 < len (row_password_encrypted origin_row)"
    using 1 by simp
  show ?thesis
    using read_without_ciphertext [of origin_row toy_crypto "keyless_store [origin_row]"
      ?d "''origin''" "[origin_row]"] 1 2 3 4 5
    by blast
qed

section \<open>Credential injection\<close>

lemma HasPrefix_append: "strings_HasPrefix (k @ v) k"
  by (simp add: strings_HasPrefix_def)

lemma HasPrefix_both:
  assumes "strings_HasPrefix e a" and "strings_HasPrefix e b" and "length a \<le> length b"
  shows "take (length a) b = a"
proof -
  have "take (length a) b = take (length a) (take (length b) e)"
    using assms(2) by (simp add: strings_HasPrefix_def)
  also have "\<dots> = take (length a) e"
    using assms(3) by (simp add: min_def)
  finally show ?thesis using assms(1) by (simp add: strings_HasPrefix_def)
qed

lemma user_not_password:
  "strings_HasPrefix e ''DOLT_REMOTE_USER='' \<Longrightarrow> \<not> strings_HasPrefix e ''DOLT_REMOTE_PASSWORD=''"
proof
  assume "strings_HasPrefix e ''DOLT_REMOTE_USER=''" "strings_HasPrefix e ''DOLT_REMOTE_PASSWORD=''"
  from HasPrefix_both [OF this] show False by simp
qed

lemma LookupEnv_Unsetenv_same: "os_LookupEnv k (os_Unsetenv k env) = None"
proof -
  have "find P (filter (\<lambda>e. \<not> P e) xs) = None" for P :: "string \<Rightarrow> bool" and xs
    by (induction xs) simp_all
  then show ?thesis by (simp add: os_LookupEnv_def os_Unsetenv_def)
qed

lemma find_filter_other:
  "(\<And>e. P e \<Longrightarrow> Q e) \<Longrightarrow> find P (filter Q xs) = find P xs"
  by (induction xs) auto

lemma find_filter_none:
  "(\<And>e. P e \<Longrightarrow> \<not> Q e) \<Longrightarrow> find P (filter Q xs) = None"
  by (induction xs) auto

lemma find_append: "find P (xs @ ys) = (case find P xs of None \<Rightarrow> find P ys | Some x \<Rightarrow> Some x)"
  by (induction xs) simp_all

lemma applyToCmd_child_env:
  "\<not> creds_empty (Some c) \<Longrightarrow> applyToCmd (Some c) cmd p = (cmd\<lparr>Env := Some (child_env c (environ p))\<rparr>, p)"
  by (simp add: applyToCmd_def child_env_def Let_def)

lemma child_env_user:
  "os_LookupEnv ''DOLT_REMOTE_USER'' (child_env c env)
     = (if creds_Username c \<noteq> [] then Some (creds_Username c) else None)"
proof -
  have n: "find (\<lambda>e. strings_HasPrefix e ''DOLT_REMOTE_USER='')
         (filter (\<lambda>e. \<not> strings_HasPrefix e ''DOLT_REMOTE_USER=''
                \<and> \<not> strings_HasPrefix e ''DOLT_REMOTE_PASSWORD='') env) = None"
    by (rule find_filter_none) simp
  have p: "\<not> strings_HasPrefix (''DOLT_REMOTE_PASSWORD='' @ x) ''DOLT_REMOTE_USER=''" for x
    using user_not_password [of "''DOLT_REMOTE_PASSWORD='' @ x"] HasPrefix_append [of "''DOLT_REMOTE_PASSWORD=''" x]
    by blast
  have u: "strings_HasPrefix (''DOLT_REMOTE_USER='' @ x) ''DOLT_REMOTE_USER=''" for x
    by (rule HasPrefix_append)
  show ?thesis
    using n p u by (simp add: os_LookupEnv_def child_env_def find_append)
qed

lemma child_env_password:
  "os_LookupEnv ''DOLT_REMOTE_PASSWORD'' (child_env c env)
     = (if creds_Password c \<noteq> [] then Some (creds_Password c) else None)"
proof -
  have n: "find (\<lambda>e. strings_HasPrefix e ''DOLT_REMOTE_PASSWORD='')
         (filter (\<lambda>e. \<not> strings_HasPrefix e ''DOLT_REMOTE_USER=''
                \<and> \<not> strings_HasPrefix e ''DOLT_REMOTE_PASSWORD='') env) = None"
    by (rule find_filter_none) simp
  have p: "\<not> strings_HasPrefix (''DOLT_REMOTE_USER='' @ x) ''DOLT_REMOTE_PASSWORD=''" for x
    using user_not_password [of "''DOLT_REMOTE_USER='' @ x"] HasPrefix_append [of "''DOLT_REMOTE_USER=''" x]
    by blast
  have u: "strings_HasPrefix (''DOLT_REMOTE_PASSWORD='' @ x) ''DOLT_REMOTE_PASSWORD=''" for x
    by (rule HasPrefix_append)
  show ?thesis
    using n p u by (simp add: os_LookupEnv_def child_env_def find_append)
qed


text \<open>
  Claim C4. For credentials that are not empty, \<^const>\<open>applyToCmd\<close> sets the
  command's environment to the ambient one stripped of its entries for
  \<^verbatim>\<open>DOLT_REMOTE_USER\<close> and \<^verbatim>\<open>DOLT_REMOTE_PASSWORD\<close>, plus the user variable when
  the username is not empty and the password variable when the password is not empty:
  a lookup of either variable in the child's environment finds this call's credential
  or nothing. The process is returned as it was: the call only reads its environment,
  so calls for different peers see nothing of each other.
\<close>

theorem applyToCmd_isolated:
  "\<not> creds_empty (Some c) \<longrightarrow>
     applyToCmd (Some c) cmd p = (cmd\<lparr>Env := Some (child_env c (environ p))\<rparr>, p)
     \<and> os_LookupEnv ''DOLT_REMOTE_USER'' (child_env c (environ p))
         = (if creds_Username c \<noteq> [] then Some (creds_Username c) else None)
     \<and> os_LookupEnv ''DOLT_REMOTE_PASSWORD'' (child_env c (environ p))
         = (if creds_Password c \<noteq> [] then Some (creds_Password c) else None)"
  using applyToCmd_child_env child_env_user child_env_password by blast

theorem applyToCmd_isolated_witness:
  "applyToCmd (Some alpha) dolt parent
     = (dolt\<lparr>Env := Some [''PATH=/bin'', ''DOLT_REMOTE_USER=a'', ''DOLT_REMOTE_PASSWORD=a1'']\<rparr>, parent)
   \<and> applyToCmd (Some beta) dolt parent
     = (dolt\<lparr>Env := Some [''PATH=/bin'', ''DOLT_REMOTE_USER=b'', ''DOLT_REMOTE_PASSWORD=b1'']\<rparr>, parent)
   \<and> os_LookupEnv ''DOLT_REMOTE_USER'' (child_env alpha (environ parent)) = Some ''a''
   \<and> os_LookupEnv ''DOLT_REMOTE_PASSWORD'' (child_env beta (environ parent)) = Some ''b1''"
proof -
  have a: "\<not> creds_empty (Some alpha)" and b: "\<not> creds_empty (Some beta)"
    by (simp_all add: creds_empty_def alpha_def beta_def)
  have ea: "child_env alpha (environ parent)
              = [''PATH=/bin'', ''DOLT_REMOTE_USER=a'', ''DOLT_REMOTE_PASSWORD=a1'']"
    by (simp add: child_env_def alpha_def parent_def strings_HasPrefix_def)
  have eb: "child_env beta (environ parent)
              = [''PATH=/bin'', ''DOLT_REMOTE_USER=b'', ''DOLT_REMOTE_PASSWORD=b1'']"
    by (simp add: child_env_def beta_def parent_def strings_HasPrefix_def)
  have ua: "creds_Username alpha = ''a''" and pb: "creds_Password beta = ''b1''"
    by (simp_all add: alpha_def beta_def)
  show ?thesis
    using applyToCmd_isolated [of alpha dolt parent] applyToCmd_isolated [of beta dolt parent]
      a b ua pb
    unfolding ea eb by simp
qed

lemma find_map_same:
  "(\<And>e. P e \<Longrightarrow> f e = e) \<Longrightarrow> (\<And>e. \<not> P e \<Longrightarrow> \<not> P (f e)) \<Longrightarrow>
     find P (map f xs) = find P xs"
  by (induction xs) auto

lemma LookupEnv_Setenv_same:
  assumes "setenv_ok k v"
  shows "os_LookupEnv k (snd (os_Setenv k v env)) = Some v"
proof (cases "list_ex (\<lambda>e. strings_HasPrefix e (k @ ''='')) env")
  case True
  let ?P = "\<lambda>e. strings_HasPrefix e (k @ ''='')"
  have kv: "?P (k @ ''='' @ v)"
    using HasPrefix_append [of "k @ ''=''" v] by simp
  obtain r where r: "find ?P env = Some r"
    using find_list_ex [OF True] by blast
  have "find ?P (map (\<lambda>e. if ?P e then k @ ''='' @ v else e) env)
          = map_option (\<lambda>e. k @ ''='' @ v) (find ?P env)"
    using kv by (intro find_map_update) simp
  then show ?thesis
    using assms True r
    by (simp add: os_LookupEnv_def os_Setenv_def setenv_ok_def)
next
  case False
  have kv: "strings_HasPrefix (k @ ''='' @ v) (k @ ''='')"
    using HasPrefix_append [of "k @ ''=''" v] by simp
  show ?thesis
    using assms False kv
    by (simp add: os_LookupEnv_def os_Setenv_def setenv_ok_def find_append_none)
qed

lemma Setenv_refused: "\<not> setenv_ok k v \<Longrightarrow> snd (os_Setenv k v env) = env"
  by (auto simp: os_Setenv_def setenv_ok_def)

lemma LookupEnv_Setenv_other:
  assumes "\<And>e. strings_HasPrefix e (k @ ''='') \<Longrightarrow> \<not> strings_HasPrefix e (k' @ ''='')"
  shows "os_LookupEnv k' (snd (os_Setenv k v env)) = os_LookupEnv k' env"
proof -
  let ?P = "\<lambda>e. strings_HasPrefix e (k @ ''='')"
  let ?Q = "\<lambda>e. strings_HasPrefix e (k' @ ''='')"
  have kv: "?P (k @ ''='' @ v)"
    using HasPrefix_append [of "k @ ''=''" v] by simp
  then have nq: "\<not> ?Q (k @ ''='' @ v)"
    using assms by blast
  have m: "find ?Q (map (\<lambda>e. if ?P e then k @ ''='' @ v else e) env) = find ?Q env"
    using assms nq by (intro find_map_same) auto
  have a: "find ?Q (env @ [k @ ''='' @ v]) = find ?Q env"
    using nq by (simp add: find_append split: option.splits)
  show ?thesis
    using m a by (simp add: os_LookupEnv_def os_Setenv_def)
qed

lemma LookupEnv_Unsetenv_other:
  assumes "\<And>e. strings_HasPrefix e (k @ ''='') \<Longrightarrow> \<not> strings_HasPrefix e (k' @ ''='')"
  shows "os_LookupEnv k' (os_Unsetenv k env) = os_LookupEnv k' env"
proof -
  have "find (\<lambda>e. strings_HasPrefix e (k' @ ''=''))
          (filter (\<lambda>e. \<not> strings_HasPrefix e (k @ ''='')) env)
        = find (\<lambda>e. strings_HasPrefix e (k' @ ''='')) env"
    using assms by (intro find_filter_other) blast
  then show ?thesis by (simp add: os_LookupEnv_def os_Unsetenv_def)
qed

lemma user_password_apart:
  "strings_HasPrefix e (''DOLT_REMOTE_USER'' @ ''='')
     \<Longrightarrow> \<not> strings_HasPrefix e (''DOLT_REMOTE_PASSWORD'' @ ''='')"
  "strings_HasPrefix e (''DOLT_REMOTE_PASSWORD'' @ ''='')
     \<Longrightarrow> \<not> strings_HasPrefix e (''DOLT_REMOTE_USER'' @ ''='')"
  using user_not_password [of e] by auto

lemma injected_user:
  "os_LookupEnv ''DOLT_REMOTE_USER'' (injected c env)
     = (if creds_Username c \<noteq> [] \<and> NUL \<notin> set (creds_Username c) then Some (creds_Username c)
        else os_LookupEnv ''DOLT_REMOTE_USER'' env)"
proof -
  have ok: "setenv_ok ''DOLT_REMOTE_USER'' v \<longleftrightarrow> NUL \<notin> set v" for v
    by (simp add: setenv_ok_def NUL_def)
  have "os_LookupEnv ''DOLT_REMOTE_USER'' (snd (os_Setenv ''DOLT_REMOTE_PASSWORD'' pw e))
          = os_LookupEnv ''DOLT_REMOTE_USER'' e" for pw e
    by (rule LookupEnv_Setenv_other) (rule user_password_apart)
  moreover have "os_LookupEnv ''DOLT_REMOTE_USER'' (snd (os_Setenv ''DOLT_REMOTE_USER'' v e))
          = (if NUL \<notin> set v then Some v else os_LookupEnv ''DOLT_REMOTE_USER'' e)" for v e
    using LookupEnv_Setenv_same [of "''DOLT_REMOTE_USER''" v e]
      Setenv_refused [of "''DOLT_REMOTE_USER''" v e] ok [of v]
    by (simp del: append.simps)
  ultimately show ?thesis
    by (simp add: injected_def setFederationCredentials_def Let_def)
qed

lemma injected_password:
  "os_LookupEnv ''DOLT_REMOTE_PASSWORD'' (injected c env)
     = (if creds_Password c \<noteq> [] \<and> NUL \<notin> set (creds_Password c) then Some (creds_Password c)
        else os_LookupEnv ''DOLT_REMOTE_PASSWORD'' env)"
proof -
  have ok: "setenv_ok ''DOLT_REMOTE_PASSWORD'' v \<longleftrightarrow> NUL \<notin> set v" for v
    by (simp add: setenv_ok_def NUL_def)
  have "os_LookupEnv ''DOLT_REMOTE_PASSWORD'' (snd (os_Setenv ''DOLT_REMOTE_USER'' u e))
          = os_LookupEnv ''DOLT_REMOTE_PASSWORD'' e" for u e
    by (rule LookupEnv_Setenv_other) (rule user_password_apart)
  moreover have "os_LookupEnv ''DOLT_REMOTE_PASSWORD'' (snd (os_Setenv ''DOLT_REMOTE_PASSWORD'' v e))
          = (if NUL \<notin> set v then Some v else os_LookupEnv ''DOLT_REMOTE_PASSWORD'' e)" for v e
    using LookupEnv_Setenv_same [of "''DOLT_REMOTE_PASSWORD''" v e]
      Setenv_refused [of "''DOLT_REMOTE_PASSWORD''" v e] ok [of v]
    by (simp del: append.simps)
  ultimately show ?thesis
    by (simp add: injected_def setFederationCredentials_def Let_def)
qed

lemma cleaned_lookup:
  "os_LookupEnv ''DOLT_REMOTE_USER'' (cleaned env) = None"
  "os_LookupEnv ''DOLT_REMOTE_PASSWORD'' (cleaned env) = None"
proof -
  have "os_LookupEnv ''DOLT_REMOTE_USER'' (os_Unsetenv ''DOLT_REMOTE_PASSWORD'' e)
          = os_LookupEnv ''DOLT_REMOTE_USER'' e" for e
    by (rule LookupEnv_Unsetenv_other) (rule user_password_apart)
  then show "os_LookupEnv ''DOLT_REMOTE_USER'' (cleaned env) = None"
    by (simp add: cleaned_def LookupEnv_Unsetenv_same del: append.simps)
  show "os_LookupEnv ''DOLT_REMOTE_PASSWORD'' (cleaned env) = None"
    by (simp add: cleaned_def LookupEnv_Unsetenv_same)
qed

lemma setFederationCredentials_eq:
  "setFederationCredentials (creds_Username c) (creds_Password c) env = (injected c env, cleaned)"
proof -
  have "(\<lambda>e. os_Unsetenv ''DOLT_REMOTE_PASSWORD'' (os_Unsetenv ''DOLT_REMOTE_USER'' e)) = cleaned"
    by (rule ext) (simp add: cleaned_def)
  then show ?thesis
    by (simp add: injected_def setFederationCredentials_def Let_def)
qed

lemma withEnvCredentials_unfold:
  assumes "\<not> creds_empty (Some c)" and "\<not> federationEnvMutex p"
    and "fn (p\<lparr>federationEnvMutex := True, environ := injected c (environ p)\<rparr>) = (r, env')"
  shows "withEnvCredentials (Some c) fn p
           = (r, p\<lparr>environ := cleaned env', federationEnvMutex := False\<rparr>)"
  using assms
  by (simp add: withEnvCredentials_def setFederationCredentials_eq)


text \<open>
  Claim C3, as the code has it. For credentials that are not empty and a free mutex,
  \<^const>\<open>withEnvCredentials\<close> runs the wrapped operation once, with the mutex held,
  on the environment in which each credential that is not empty (and that
  \<^verbatim>\<open>os.Setenv\<close> accepts) is set; a credential that is empty leaves its variable as
  the environment had it. However the operation ends (nil, an error, a panic), its
  outcome is passed on, both variables are unset in the environment it left, and the
  mutex is released. The last theorem evaluates a call with an empty username: the
  operation sees the stale user variable of the process, not one set by the call.
\<close>

theorem withEnvCredentials_scoped:
  assumes "\<not> creds_empty (Some c)" and "\<not> federationEnvMutex p"
  shows "\<exists>r env'.
      fn (p\<lparr>federationEnvMutex := True, environ := injected c (environ p)\<rparr>) = (r, env')
    \<and> withEnvCredentials (Some c) fn p
        = (r, p\<lparr>environ := cleaned env', federationEnvMutex := False\<rparr>)
    \<and> os_LookupEnv ''DOLT_REMOTE_USER'' (injected c (environ p))
        = (if creds_Username c \<noteq> [] \<and> NUL \<notin> set (creds_Username c)
           then Some (creds_Username c) else os_LookupEnv ''DOLT_REMOTE_USER'' (environ p))
    \<and> os_LookupEnv ''DOLT_REMOTE_PASSWORD'' (injected c (environ p))
        = (if creds_Password c \<noteq> [] \<and> NUL \<notin> set (creds_Password c)
           then Some (creds_Password c) else os_LookupEnv ''DOLT_REMOTE_PASSWORD'' (environ p))
    \<and> os_LookupEnv ''DOLT_REMOTE_USER'' (cleaned env') = None
    \<and> os_LookupEnv ''DOLT_REMOTE_PASSWORD'' (cleaned env') = None"
proof -
  obtain r env' where f:
    "fn (p\<lparr>federationEnvMutex := True, environ := injected c (environ p)\<rparr>) = (r, env')"
    by (cases "fn (p\<lparr>federationEnvMutex := True, environ := injected c (environ p)\<rparr>)")
  show ?thesis
    using f withEnvCredentials_unfold [of c p fn r env', OF assms f] injected_user [of c "environ p"]
      injected_password [of c "environ p"] cleaned_lookup [of env']
    by blast
qed

theorem withEnvCredentials_scoped_witness:
  "withEnvCredentials (Some alpha) failing_push parent
     = (Returned (Some (Err ''push failed'')), parent\<lparr>environ := [''PATH=/bin'']\<rparr>)"
proof -
  have a: "\<not> creds_empty (Some alpha)"
    by (simp add: creds_empty_def alpha_def)
  have m: "\<not> federationEnvMutex parent"
    by (simp add: parent_def)
  have i: "injected alpha (environ parent)
             = [''PATH=/bin'', ''DOLT_REMOTE_USER=a'', ''DOLT_REMOTE_PASSWORD=a1'']"
    by (simp add: injected_def setFederationCredentials_def alpha_def parent_def os_Setenv_def
        NUL_def strings_HasPrefix_def)
  have c: "cleaned [''PATH=/bin'', ''DOLT_REMOTE_USER=a'', ''DOLT_REMOTE_PASSWORD=a1'',
                    ''DOLT_REMOTE_USER=x''] = [''PATH=/bin'']"
    by (simp add: cleaned_def os_Unsetenv_def strings_HasPrefix_def)
  obtain r env' where w:
    "failing_push (parent\<lparr>federationEnvMutex := True, environ := injected alpha (environ parent)\<rparr>)
       = (r, env')"
    "withEnvCredentials (Some alpha) failing_push parent
        = (r, parent\<lparr>environ := cleaned env', federationEnvMutex := False\<rparr>)"
    using withEnvCredentials_scoped [OF a m, of failing_push] by blast
  from w(1) have "r = Returned (Some (Err ''push failed''))"
    and "env' = [''PATH=/bin'', ''DOLT_REMOTE_USER=a'', ''DOLT_REMOTE_PASSWORD=a1'',
                 ''DOLT_REMOTE_USER=x'']"
    by (simp_all add: failing_push_def i)
  then show ?thesis
    using w(2) c by (simp add: parent_def)
qed

theorem withEnvCredentials_counterexample:
  "os_LookupEnv ''DOLT_REMOTE_USER'' (fst (setFederationCredentials [] ''pw'' [])) = None
   \<and> withEnvCredentials (Some \<lparr>creds_Username = [], creds_Password = ''pw''\<rparr>) report_user parent
       = (Returned (Some (Err ''stale'')), parent\<lparr>environ := [''PATH=/bin'']\<rparr>)"
  by (simp add: withEnvCredentials_def setFederationCredentials_def creds_empty_def parent_def
      report_user_def os_Setenv_def os_Unsetenv_def os_LookupEnv_def NUL_def strings_HasPrefix_def)

section \<open>Key migration\<close>

lemma toMigrate_member: "x \<in> set (toMigrate C k sel) \<Longrightarrow> fst x \<in> fst ` set sel"
  by (induction C k sel rule: toMigrate.induct) (auto split: sum.splits)

lemma toMigrate_names: "fst ` set (toMigrate C k sel) \<subseteq> fst ` set sel"
  using toMigrate_member by blast

lemma toMigrate_distinct: "distinct (map fst sel) \<Longrightarrow> distinct (map fst (toMigrate C k sel))"
proof (induction sel)
  case Nil
  then show ?case by simp
next
  case (Cons a sel)
  obtain n enc where a: "a = (n, enc)" by (cases a)
  have "n \<notin> fst ` set sel"
    using Cons.prems a by simp
  then have "n \<notin> fst ` set (toMigrate C k sel)"
    using toMigrate_names [of C k sel] by blast
  moreover have "distinct (map fst (toMigrate C k sel))"
    using Cons by simp
  ultimately show ?case
    using a by (simp split: sum.splits)
qed

lemma toMigrate_length: "length (toMigrate C k sel) \<le> length sel"
  by (induction sel) (auto split: sum.splits)

lemma toMigrate_map_of:
  "distinct (map fst sel) \<Longrightarrow>
     map_of (toMigrate C k sel) n =
       (case map_of sel n of
          None \<Rightarrow> None
        | Some enc \<Rightarrow> (case decryptWithKey C enc k of Inl err \<Rightarrow> None | Inr pt \<Rightarrow> Some pt))"
proof (induction sel)
  case Nil
  then show ?case by simp
next
  case (Cons a sel)
  obtain n0 enc0 where a: "a = (n0, enc0)" by (cases a)
  have "map_of sel n0 = None"
    using Cons.prems a by (simp add: map_of_eq_None_iff)
  then show ?case
    using Cons a by (auto split: sum.splits option.splits)
qed

lemma select_map_of:
  assumes "distinct (map row_name rows)" and "r \<in> set rows"
  shows "map_of (map (\<lambda>r. (row_name r, bytes (row_password_encrypted r)))
                   (filter (\<lambda>r. row_password_encrypted r \<noteq> None
                                 \<and> len (row_password_encrypted r) > 0) rows)) (row_name r)
         = (if 0 < len (row_password_encrypted r)
            then Some (bytes (row_password_encrypted r)) else None)"
  using assms
proof (induction rows)
  case Nil
  then show ?case by simp
next
  case (Cons a rows)
  show ?case
  proof (cases "r = a")
    case True
    have "row_name a \<notin> row_name ` set rows"
      using Cons.prems(1) by simp
    then have "map_of (map (\<lambda>r. (row_name r, bytes (row_password_encrypted r)))
                   (filter (\<lambda>r. row_password_encrypted r \<noteq> None
                                 \<and> len (row_password_encrypted r) > 0) rows)) (row_name a) = None"
      by (force simp: map_of_eq_None_iff)
    then show ?thesis
      using True by (auto simp: len_def)
  next
    case False
    then have "r \<in> set rows" using Cons.prems(2) by simp
    moreover have "row_name a \<notin> row_name ` set rows"
      using Cons.prems(1) by simp
    then have "row_name r \<noteq> row_name a"
      using calculation by (metis image_eqI)
    moreover have "distinct (map row_name rows)"
      using Cons.prems(1) by simp
    ultimately show ?thesis
      using Cons.IH by simp
  qed
qed

lemma reencrypt_rows:
  assumes "length newKey = 32" and "NonceSize * length es \<le> length rnd"
    and "federation_peers d = Some rows" and "distinct (map fst es)"
  shows "\<exists>rows'. reencrypt C newKey es d rnd
                    = (None, d\<lparr>federation_peers := Some rows'\<rparr>, drop (NonceSize * length es) rnd)
           \<and> list_all2 (\<lambda>r r'. case map_of es (row_name r) of
                                  None \<Rightarrow> r' = r
                                | Some pt \<Rightarrow>
                                    (\<exists>nonce. length nonce = NonceSize
                                       \<and> r' = r\<lparr>row_password_encrypted :=
                                            Some (nonce @ aead_seal C newKey nonce (bytes_of_string pt))\<rparr>))
                 rows rows'"
  using assms(2-)
proof (induction es arbitrary: d rows rnd)
  case Nil
  have "d\<lparr>federation_peers := Some rows\<rparr> = d"
    using Nil.prems(2) by simp
  then show ?case
    by (auto simp: list_all2_same intro!: exI [of _ rows])
next
  case (Cons a es)
  obtain name pt where a: "a = (name, pt)" by (cases a)
  let ?nonce = "take NonceSize rnd"
  let ?blob = "?nonce @ aead_seal C newKey ?nonce (bytes_of_string pt)"
  let ?upd = "\<lambda>r. if row_name r = name then r\<lparr>row_password_encrypted := Some ?blob\<rparr> else r"
  let ?d1 = "d\<lparr>federation_peers := Some (map ?upd rows)\<rparr>"
  have len: "NonceSize \<le> length rnd" "NonceSize * length es \<le> length (drop NonceSize rnd)"
    using Cons.prems(1) by simp_all
  have enc: "encryptWithKey C pt newKey rnd = (Inr ?blob, drop NonceSize rnd)"
    using assms(1) len(1) by (simp add: encryptWithKey_unfold)
  have upd: "update_password d ?blob name = Inr ?d1"
    using Cons.prems(2) by (simp add: update_password_def)
  have step: "reencrypt C newKey (a # es) d rnd = reencrypt C newKey es ?d1 (drop NonceSize rnd)"
    using enc upd a by simp
  have d1: "federation_peers ?d1 = Some (map ?upd rows)" by simp
  have dist: "distinct (map fst es)" "name \<notin> fst ` set es"
    using Cons.prems(3) a by auto
  obtain rows' where r: "reencrypt C newKey es ?d1 (drop NonceSize rnd)
        = (None, ?d1\<lparr>federation_peers := Some rows'\<rparr>,
           drop (NonceSize * length es) (drop NonceSize rnd))"
    and l: "list_all2 (\<lambda>r r'. case map_of es (row_name r) of
                                  None \<Rightarrow> r' = r
                                | Some pt \<Rightarrow>
                                    (\<exists>nonce. length nonce = NonceSize
                                       \<and> r' = r\<lparr>row_password_encrypted :=
                                            Some (nonce @ aead_seal C newKey nonce (bytes_of_string pt))\<rparr>))
                 (map ?upd rows) rows'"
    using Cons.IH [OF len(2) d1 dist(1)] by blast
  have none: "map_of es name = None"
    using dist(2) by (simp add: map_of_eq_None_iff)
  have nlen: "length ?nonce = NonceSize" using len(1) by simp
  have l': "list_all2 (\<lambda>r r'. case map_of (a # es) (row_name r) of
                                  None \<Rightarrow> r' = r
                                | Some pt \<Rightarrow>
                                    (\<exists>nonce. length nonce = NonceSize
                                       \<and> r' = r\<lparr>row_password_encrypted :=
                                            Some (nonce @ aead_seal C newKey nonce (bytes_of_string pt))\<rparr>))
                 rows rows'"
  proof -
    have "list_all2 (\<lambda>r r'. case map_of es (row_name (?upd r)) of
                                  None \<Rightarrow> r' = ?upd r
                                | Some pt \<Rightarrow>
                                    (\<exists>nonce. length nonce = NonceSize
                                       \<and> r' = (?upd r)\<lparr>row_password_encrypted :=
                                            Some (nonce @ aead_seal C newKey nonce (bytes_of_string pt))\<rparr>))
                 rows rows'"
      using l by (simp only: list_all2_map1)
    then show ?thesis
    proof (rule list_all2_mono)
      fix r r'
      assume h: "case map_of es (row_name (?upd r)) of
                   None \<Rightarrow> r' = ?upd r
                 | Some pt \<Rightarrow>
                     (\<exists>nonce. length nonce = NonceSize
                        \<and> r' = (?upd r)\<lparr>row_password_encrypted :=
                             Some (nonce @ aead_seal C newKey nonce (bytes_of_string pt))\<rparr>)"
      show "case map_of (a # es) (row_name r) of
              None \<Rightarrow> r' = r
            | Some pt \<Rightarrow>
                (\<exists>nonce. length nonce = NonceSize
                   \<and> r' = r\<lparr>row_password_encrypted :=
                        Some (nonce @ aead_seal C newKey nonce (bytes_of_string pt))\<rparr>)"
      proof (cases "row_name r = name")
        case True
        then have "r' = r\<lparr>row_password_encrypted := Some ?blob\<rparr>"
          using h none by simp
        then have "\<exists>nonce. length nonce = NonceSize
                   \<and> r' = r\<lparr>row_password_encrypted :=
                        Some (nonce @ aead_seal C newKey nonce (bytes_of_string pt))\<rparr>"
          using nlen by blast
        then show ?thesis
          using True a by simp
      next
        case False
        then show ?thesis
          using h a by (simp split: option.splits)
      qed
    qed
  qed
  have "?d1\<lparr>federation_peers := Some rows'\<rparr> = d\<lparr>federation_peers := Some rows'\<rparr>"
    by simp
  moreover have "drop (NonceSize * length es) (drop NonceSize rnd)
                   = drop (NonceSize * length (a # es)) rnd"
    by (simp add: add.commute)
  ultimately show ?case
    using step r l' by auto
qed


lemma migrate_rows:
  assumes "db s = Some d" and "federation_peers d = Some rows"
    and "distinct (map row_name rows)" and "length newKey = 32"
    and "NonceSize * length rows \<le> length rnd"
  shows "\<exists>rows' rnd'. migrateCredentialKeys C s newKey rnd
                         = (None, s\<lparr>db := Some (d\<lparr>federation_peers := Some rows'\<rparr>)\<rparr>, rnd')
           \<and> list_all2 (migrated_row C (legacyEncryptionKey C s) newKey) rows rows'"
proof -
  let ?k = "legacyEncryptionKey C s"
  let ?sel = "map (\<lambda>r. (row_name r, bytes (row_password_encrypted r)))
                (filter (\<lambda>r. row_password_encrypted r \<noteq> None
                              \<and> len (row_password_encrypted r) > 0) rows)"
  let ?es = "toMigrate C ?k ?sel"
  have sel: "select_encrypted d = Inr ?sel"
    using assms(2) by (simp add: select_encrypted_def)
  have dsel: "distinct (map fst ?sel)"
    using assms(3) by (simp add: comp_def distinct_map_filter)
  have des: "distinct (map fst ?es)"
    using dsel by (rule toMigrate_distinct)
  have "length ?es \<le> length ?sel"
    by (rule toMigrate_length)
  also have "\<dots> \<le> length rows"
    by simp
  finally have "NonceSize * length ?es \<le> NonceSize * length rows"
    by (rule mult_le_mono2)
  then have ent: "NonceSize * length ?es \<le> length rnd"
    using assms(5) by (rule le_trans)
  obtain rows' where r: "reencrypt C newKey ?es d rnd
                    = (None, d\<lparr>federation_peers := Some rows'\<rparr>, drop (NonceSize * length ?es) rnd)"
    and l: "list_all2 (\<lambda>r r'. case map_of ?es (row_name r) of
                                  None \<Rightarrow> r' = r
                                | Some pt \<Rightarrow>
                                    (\<exists>nonce. length nonce = NonceSize
                                       \<and> r' = r\<lparr>row_password_encrypted :=
                                            Some (nonce @ aead_seal C newKey nonce (bytes_of_string pt))\<rparr>))
                 rows rows'"
    using reencrypt_rows [OF assms(4) ent assms(2) des] by blast
  have m: "migrateCredentialKeys C s newKey rnd
             = (None, s\<lparr>db := Some (d\<lparr>federation_peers := Some rows'\<rparr>)\<rparr>,
                drop (NonceSize * length ?es) rnd)"
    using assms(1) sel r by (simp add: migrateCredentialKeys_def)
  have "list_all2 (migrated_row C ?k newKey) rows rows'"
    using l
  proof (rule list.rel_mono_strong)
    fix r r'
    assume mem: "r \<in> set rows"
      and h: "case map_of ?es (row_name r) of
                None \<Rightarrow> r' = r
              | Some pt \<Rightarrow>
                  (\<exists>nonce. length nonce = NonceSize
                     \<and> r' = r\<lparr>row_password_encrypted :=
                          Some (nonce @ aead_seal C newKey nonce (bytes_of_string pt))\<rparr>)"
    have "map_of ?es (row_name r)
            = (case map_of ?sel (row_name r) of
                 None \<Rightarrow> None
               | Some enc \<Rightarrow> (case decryptWithKey C enc ?k of Inl err \<Rightarrow> None | Inr pt \<Rightarrow> Some pt))"
      using dsel by (rule toMigrate_map_of)
    also have "map_of ?sel (row_name r)
            = (if 0 < len (row_password_encrypted r)
               then Some (bytes (row_password_encrypted r)) else None)"
      using assms(3) mem by (rule select_map_of)
    finally have e: "map_of ?es (row_name r)
            = (if 0 < len (row_password_encrypted r)
               then (case decryptWithKey C (bytes (row_password_encrypted r)) ?k of
                       Inl err \<Rightarrow> None | Inr pt \<Rightarrow> Some pt)
               else None)"
      by simp
    show "migrated_row C ?k newKey r r'"
      using h unfolding e migrated_row_def
      by (auto split: sum.splits)
  qed
  then show ?thesis using m by blast
qed

lemma decrypt_sealed:
  assumes "aead_correct C" and "length key = 32" and "length nonce = NonceSize"
  shows "decryptWithKey C (nonce @ aead_seal C key nonce (bytes_of_string pt)) key = Inr pt"
proof -
  have "aead_open C key nonce (aead_seal C key nonce (bytes_of_string pt)) = Some (bytes_of_string pt)"
    using assms by (simp add: aead_correct_def)
  then show ?thesis
    using assms(2,3) by (simp add: decryptWithKey_unfold string_of_bytes_of_string)
qed






lemma legacy_key_facts:
  "legacyEncryptionKey toy_crypto (legacy_store d) = legacy_key"
  "length legacy_key = 32"
  "sum_list (replicate 32 7 :: byte list) \<noteq> sum_list legacy_key"
  by (simp_all add: legacyEncryptionKey_def legacy_store_def legacy_key_def toy_crypto_def
      bytes_of_string_def sum_list_replicate)

lemma bot_row_facts:
  "row_name bot_row = ''bot1''" "0 < len (row_password_encrypted bot_row)"
  "decryptWithKey toy_crypto (bytes (row_password_encrypted bot_row)) legacy_key = Inr ''pw''"
proof -
  show "row_name bot_row = ''bot1''" "0 < len (row_password_encrypted bot_row)"
    by (simp_all add: bot_row_def len_def)
  have "decryptWithKey toy_crypto
          (replicate 12 0 @ aead_seal toy_crypto legacy_key (replicate 12 0) (bytes_of_string ''pw''))
          legacy_key = Inr ''pw''"
    using toy_crypto_correct legacy_key_facts(2)
    by (rule decrypt_sealed) (simp add: NonceSize_def)
  then show "decryptWithKey toy_crypto (bytes (row_password_encrypted bot_row)) legacy_key = Inr ''pw''"
    by (simp add: bot_row_def bytes_def)
qed

text \<open>
  Claim C7. On a store with a database whose peer table exists (names are its primary
  key), with a 32-byte new key and a random source that lasts for one nonce per row,
  \<^const>\<open>migrateCredentialKeys\<close> returns nil and leaves a table that relates to the
  old one row by row: a row without a non-empty encrypted password is untouched; a row
  whose blob fails to decrypt under the legacy key is untouched; a row whose blob
  decrypts gets its plaintext sealed under the new key. When the table is missing, or
  the store has no database, the call returns nil and changes nothing.
\<close>

theorem migrateCredentialKeys_rows:
  "(db s = Some d \<and> federation_peers d = Some rows \<and> distinct (map row_name rows)
      \<and> length newKey = 32 \<and> NonceSize * length rows \<le> length rnd \<longrightarrow>
      (\<exists>rows' rnd'. migrateCredentialKeys C s newKey rnd
                       = (None, s\<lparr>db := Some (d\<lparr>federation_peers := Some rows'\<rparr>)\<rparr>, rnd')
         \<and> list_all2 (migrated_row C (legacyEncryptionKey C s) newKey) rows rows'))
   \<and> (db s = Some d \<and> federation_peers d = None \<longrightarrow>
        migrateCredentialKeys C s newKey rnd = (None, s, rnd))
   \<and> (db s = None \<longrightarrow> migrateCredentialKeys C s newKey rnd = (None, s, rnd))"
proof -
  have a: "db s = Some d \<and> federation_peers d = None \<longrightarrow>
        migrateCredentialKeys C s newKey rnd = (None, s, rnd)"
    by (simp add: migrateCredentialKeys_def select_encrypted_def)
  have b: "db s = None \<longrightarrow> migrateCredentialKeys C s newKey rnd = (None, s, rnd)"
    by (simp add: migrateCredentialKeys_def)
  show ?thesis
    using migrate_rows [of s d rows newKey rnd C] a b by blast
qed



theorem migrateCredentialKeys_rows_witness:
  "(\<exists>rows' rnd'.
       migrateCredentialKeys toy_crypto
           (legacy_store (Some \<lparr>federation_peers = Some [bot_row, origin_row]\<rparr>))
           (replicate 32 7) (replicate 24 1)
         = (None, legacy_store (Some \<lparr>federation_peers = Some rows'\<rparr>), rnd')
     \<and> list_all2 (migrated_row toy_crypto legacy_key (replicate 32 7)) [bot_row, origin_row] rows')
   \<and> migrateCredentialKeys toy_crypto (legacy_store (Some \<lparr>federation_peers = None\<rparr>))
         (replicate 32 7) [] = (None, legacy_store (Some \<lparr>federation_peers = None\<rparr>), [])
   \<and> migrateCredentialKeys toy_crypto (legacy_store None) (replicate 32 7) []
         = (None, legacy_store None, [])"
proof -
  let ?d = "\<lparr>federation_peers = Some [bot_row, origin_row]\<rparr>"
  have h: "db (legacy_store (Some ?d)) = Some ?d \<and> federation_peers ?d = Some [bot_row, origin_row]
      \<and> distinct (map row_name [bot_row, origin_row])
      \<and> length (replicate 32 7 :: byte list) = 32
      \<and> NonceSize * length [bot_row, origin_row] \<le> length (replicate 24 1 :: byte list)"
    by (simp add: legacy_store_def bot_row_facts(1) origin_row_def NonceSize_def)
  have u: "legacy_store (Some ?d)\<lparr>db := Some (?d\<lparr>federation_peers := Some rows'\<rparr>)\<rparr>
             = legacy_store (Some \<lparr>federation_peers = Some rows'\<rparr>)" for rows'
    by (simp add: legacy_store_def)
  have a: "\<exists>rows' rnd'.
       migrateCredentialKeys toy_crypto (legacy_store (Some ?d)) (replicate 32 7) (replicate 24 1)
         = (None, legacy_store (Some \<lparr>federation_peers = Some rows'\<rparr>), rnd')
     \<and> list_all2 (migrated_row toy_crypto legacy_key (replicate 32 7)) [bot_row, origin_row] rows'"
    using migrateCredentialKeys_rows [of "legacy_store (Some ?d)" ?d "[bot_row, origin_row]"
        "replicate 32 7" "replicate 24 1" toy_crypto] h
    unfolding u legacy_key_facts(1) by blast
  have b: "migrateCredentialKeys toy_crypto (legacy_store (Some \<lparr>federation_peers = None\<rparr>))
         (replicate 32 7) [] = (None, legacy_store (Some \<lparr>federation_peers = None\<rparr>), [])"
    using migrateCredentialKeys_rows [of "legacy_store (Some \<lparr>federation_peers = None\<rparr>)"
        "\<lparr>federation_peers = None\<rparr>" "[]" "replicate 32 7" "[]" toy_crypto]
    by (simp add: legacy_store_def)
  have c: "migrateCredentialKeys toy_crypto (legacy_store None) (replicate 32 7) []
         = (None, legacy_store None, [])"
    using migrateCredentialKeys_rows [of "legacy_store None" "\<lparr>federation_peers = None\<rparr>" "[]" "replicate 32 7" "[]"
        toy_crypto]
    by (simp add: legacy_store_def)
  show ?thesis using a b c by blast
qed




end
